theory Spec2Isabelle
  imports Main "HOL-Library.Sublist"
begin

section \<open>File and folder management of the drive backend\<close>

text \<open>
  A shallow embedding of the route handlers of \<^verbatim>\<open>src/routes/files.js\<close> over the
  document schema of \<^verbatim>\<open>src/models/File.js\<close>.

  \<^item> The \<^verbatim>\<open>File\<close> collection is a list of documents; the \<^verbatim>\<open>_id\<close> of a document is its
    position in the list (documents are never removed, so positions are stable).
  \<^item> The \<^verbatim>\<open>User\<close> collection is a map from user ids to the \<^verbatim>\<open>storageUsed\<close> counter, the
    only field of a user the handlers touch.
  \<^item> The S3 bucket is the list of keys it holds.
  \<^item> A handler returns its response together with the ordered list of writes it issues
    (document saves, \<^verbatim>\<open>updateMany\<close>, S3 calls). Every read of the handler is done on the
    state as left by the writes issued before it. Running the whole list gives the state
    after the request; running a prefix gives the state at an interruption.
  \<^item> What the outside world decides (whether an S3 call fails, the key S3 generates, how
    the store's regular-expression engine reads a pattern) is a field of \<open>env\<close>.
  \<^item> Requests are handled one at a time, for the user id the \<^verbatim>\<open>auth\<close> middleware has put
    in \<^verbatim>\<open>req.user.id\<close>. An id in a path or a body is a well-formed object id unless said
    otherwise, and the clock is read once per request.
  \<^item> \<^verbatim>\<open>storageUsed\<close> and the sizes are whole numbers of bytes; \<^verbatim>\<open>Math.max(0, _)\<close> is written
    out where the source has it.
\<close>

subsection \<open>Documents and state\<close>

datatype file_type = TFile | TFolder

record file_doc =
  name :: string
  originalName :: string
  ftype :: file_type
  mimeType :: string
  fsize :: nat
  path :: string
  s3Key :: "string option"
  parentFolder :: "nat option"
  owner :: nat
  isDeleted :: bool
  deletedAt :: "nat option"

record db =
  files :: "file_doc list"
  users :: "nat \<rightharpoonup> int"
  bucket :: "string list"

record env =
  rx_compile :: "string \<Rightarrow> (string \<Rightarrow> bool) option"
    \<comment> \<open>the store's \<^verbatim>\<open>$regex\<close>: \<open>None\<close> when the pattern is rejected (the query throws)\<close>
  s3_delete_fails :: "string \<Rightarrow> bool"
    \<comment> \<open>\<^verbatim>\<open>deleteFileFromS3\<close> throws for this key\<close>
  s3_put :: "nat \<Rightarrow> string \<Rightarrow> string option"
    \<comment> \<open>\<^verbatim>\<open>uploadFileToS3(file, userId)\<close>: the generated key, \<open>None\<close> when it throws\<close>
  s3_sign :: "string option \<Rightarrow> string option"
    \<comment> \<open>\<^verbatim>\<open>getSignedDownloadUrl(s3Key)\<close>: the URL, \<open>None\<close> when it throws\<close>

datatype response =
    NotFound                \<comment> \<open>404\<close>
  | Forbidden               \<comment> \<open>403 Access denied\<close>
  | ValidationErrors        \<comment> \<open>400 from express-validator\<close>
  | Conflict                \<comment> \<open>400 name already exists in this location\<close>
  | QuotaExceeded           \<comment> \<open>400 Storage limit exceeded (15GB)\<close>
  | NoFileUploaded          \<comment> \<open>400 No file uploaded\<close>
  | InvalidKind             \<comment> \<open>400 Cannot download folders\<close>
  | LimitFileSize           \<comment> \<open>multer's error, passed to \<^verbatim>\<open>next\<close>; the handler does not run\<close>
  | ServerError             \<comment> \<open>500, the handler's \<^verbatim>\<open>catch\<close>\<close>
  | FolderCreated nat file_doc  \<comment> \<open>201 with the new document and its id\<close>
  | Uploaded nat file_doc int   \<comment> \<open>201 with the new document, its id, and \<^verbatim>\<open>storageUsed\<close>\<close>
  | Deleted int             \<comment> \<open>200 with \<^verbatim>\<open>storageUsed\<close>\<close>
  | DownloadUrl string      \<comment> \<open>200 with the signed URL\<close>

subsection \<open>Writes\<close>

datatype store_write =
    SaveFile nat file_doc            \<comment> \<open>\<^verbatim>\<open>doc.save()\<close> of the loaded document with this id\<close>
  | InsertFile file_doc              \<comment> \<open>\<^verbatim>\<open>doc.save()\<close> of a new document\<close>
  | UpdateManyDeleted nat string nat
      \<comment> \<open>\<^verbatim>\<open>File.updateMany({owner, path: {$regex}, isDeleted: false}, {isDeleted: true, deletedAt})\<close>\<close>
  | SaveUser nat int             \<comment> \<open>\<^verbatim>\<open>user.save()\<close> with this \<^verbatim>\<open>storageUsed\<close>\<close>
  | S3Put string
  | S3Delete string

text \<open>The writes on the \<^verbatim>\<open>File\<close> collection, and the write on the quota counter.\<close>

fun is_metadata_write :: "store_write \<Rightarrow> bool" where
  "is_metadata_write (SaveFile i f) = True"
| "is_metadata_write (InsertFile f) = True"
| "is_metadata_write (UpdateManyDeleted uid pat now) = True"
| "is_metadata_write (SaveUser uid n) = False"
| "is_metadata_write (S3Put k) = False"
| "is_metadata_write (S3Delete k) = False"

fun is_quota_write :: "store_write \<Rightarrow> bool" where
  "is_quota_write (SaveUser uid n) = True"
| "is_quota_write (SaveFile i f) = False"
| "is_quota_write (InsertFile f) = False"
| "is_quota_write (UpdateManyDeleted uid pat now) = False"
| "is_quota_write (S3Put k) = False"
| "is_quota_write (S3Delete k) = False"

definition findById :: "db \<Rightarrow> nat \<Rightarrow> file_doc option" where
  "findById s i = (if i < length (files s) then Some (files s ! i) else None)"

text \<open>The filter \<^verbatim>\<open>{owner, path: {$regex}, isDeleted: false}\<close> under a compiled pattern.\<close>

definition under_regex :: "(string \<Rightarrow> bool) \<Rightarrow> nat \<Rightarrow> file_doc \<Rightarrow> bool" where
  "under_regex m uid f \<longleftrightarrow> owner f = uid \<and> m (path f) \<and> \<not> isDeleted f"

definition mark_deleted :: "nat \<Rightarrow> file_doc \<Rightarrow> file_doc" where
  "mark_deleted now f = f\<lparr>isDeleted := True, deletedAt := Some now\<rparr>"

definition apply_write :: "env \<Rightarrow> store_write \<Rightarrow> db \<Rightarrow> db" where
  "apply_write e w s =
     (case w of
        SaveFile i f \<Rightarrow> (if i < length (files s) then s\<lparr>files := (files s)[i := f]\<rparr> else s)
      | InsertFile f \<Rightarrow> s\<lparr>files := files s @ [f]\<rparr>
      | UpdateManyDeleted uid pat now \<Rightarrow>
          (case rx_compile e pat of
             None \<Rightarrow> s
           | Some m \<Rightarrow>
               s\<lparr>files := map (\<lambda>f. if under_regex m uid f then mark_deleted now f else f) (files s)\<rparr>)
      | SaveUser uid n \<Rightarrow> s\<lparr>users := (users s)(uid \<mapsto> n)\<rparr>
      | S3Put k \<Rightarrow> s\<lparr>bucket := bucket s @ [k]\<rparr>
      | S3Delete k \<Rightarrow> (if s3_delete_fails e k then s else s\<lparr>bucket := removeAll k (bucket s)\<rparr>))"

definition run :: "env \<Rightarrow> store_write list \<Rightarrow> db \<Rightarrow> db" where
  "run e ws s = fold (apply_write e) ws s"

text \<open>The response of a request and the state it leaves.\<close>

definition exec :: "env \<Rightarrow> response \<times> store_write list \<Rightarrow> db \<Rightarrow> response \<times> db" where
  "exec e r s = (fst r, run e (snd r) s)"

subsection \<open>DELETE /api/files/:id\<close>

definition regex_of_path :: "string \<Rightarrow> string" where
  "regex_of_path p = CHR ''^'' # p @ ''/''"

text \<open>\<^verbatim>\<open>File.find({owner, path: {$regex}, isDeleted: false})\<close>; \<open>None\<close> when the query throws.\<close>

definition find_children :: "env \<Rightarrow> db \<Rightarrow> nat \<Rightarrow> string \<Rightarrow> file_doc list option" where
  "find_children e s uid pat =
     (case rx_compile e pat of
        None \<Rightarrow> None
      | Some m \<Rightarrow> Some (filter (under_regex m uid) (files s)))"

text \<open>The S3 call made for a document: only for a file with a truthy \<^verbatim>\<open>s3Key\<close>.\<close>

definition s3_cleanup :: "file_doc \<Rightarrow> store_write list" where
  "s3_cleanup f =
     (if ftype f = TFile then
        (case s3Key f of None \<Rightarrow> [] | Some k \<Rightarrow> if k = [] then [] else [S3Delete k])
      else [])"

definition delete_file_branch :: "env \<Rightarrow> db \<Rightarrow> nat \<Rightarrow> nat \<Rightarrow> file_doc \<Rightarrow> response \<times> store_write list" where
  "delete_file_branch e s uid i file =
     (let w1 = [SaveFile i file] in
      case users (run e w1 s) uid of
        None \<Rightarrow> (ServerError, w1)
      | Some used \<Rightarrow>
          (let used' = max 0 (used - int (fsize file));
               w2 = w1 @ [SaveUser uid used']
           in (Deleted used', w2 @ s3_cleanup file)))"

text \<open>
  The \<^verbatim>\<open>// Get final storage value if not already fetched\<close> block of a folder's delete:
  when the value to report is 0 the user is read once more.
\<close>

definition report_storage ::
  "env \<Rightarrow> db \<Rightarrow> nat \<Rightarrow> int \<Rightarrow> store_write list \<Rightarrow> response \<times> store_write list" where
  "report_storage e s uid updatedStorageUsed ws =
     (if updatedStorageUsed = 0 then
        (case users (run e ws s) uid of
           None \<Rightarrow> (ServerError, ws)
         | Some final \<Rightarrow> (Deleted final, ws))
      else (Deleted updatedStorageUsed, ws))"

definition delete_folder_branch ::
  "env \<Rightarrow> db \<Rightarrow> nat \<Rightarrow> nat \<Rightarrow> nat \<Rightarrow> file_doc \<Rightarrow> response \<times> store_write list" where
  "delete_folder_branch e s uid i now file =
     (let w1 = [SaveFile i file];
          pat = regex_of_path (path file)
      in case find_children e (run e w1 s) uid pat of
           None \<Rightarrow> (ServerError, w1)
         | Some childFiles \<Rightarrow>
             (let w3 = w1 @ concat (map s3_cleanup childFiles) @ [UpdateManyDeleted uid pat now];
                  totalSize = sum_list (map fsize childFiles)
              in case users (run e w3 s) uid of
                   None \<Rightarrow> (ServerError, w3)
                 | Some used \<Rightarrow>
                     if totalSize > 0 then
                       (let used' = max 0 (used - int totalSize)
                        in report_storage e s uid used' (w3 @ [SaveUser uid used']))
                     else report_storage e s uid used w3))"

definition delete_handler :: "env \<Rightarrow> db \<Rightarrow> nat \<Rightarrow> nat \<Rightarrow> nat \<Rightarrow> response \<times> store_write list" where
  "delete_handler e s uid i now =
     (case findById s i of
        None \<Rightarrow> (NotFound, [])
      | Some f \<Rightarrow>
          if owner f \<noteq> uid then (Forbidden, [])
          else
            (let file = mark_deleted now f in
             if ftype file = TFile then delete_file_branch e s uid i file
             else delete_folder_branch e s uid i now file))"

definition deleteEntry :: "env \<Rightarrow> db \<Rightarrow> nat \<Rightarrow> nat \<Rightarrow> nat \<Rightarrow> response \<times> db" where
  "deleteEntry e s uid i now = exec e (delete_handler e s uid i now) s"

subsection \<open>Schema setters and validators of \<^verbatim>\<open>models/File.js\<close>\<close>

text \<open>
  \<^verbatim>\<open>trim: true\<close> (\<^verbatim>\<open>String.prototype.trim\<close>) and the validator's \<^verbatim>\<open>trim()\<close> (\<^verbatim>\<open>\s\<close>) strip
  leading and trailing white space. A \<open>char\<close> is one code unit below 256; among these the
  white space is tab, line feed, vertical tab, form feed, carriage return, space and the
  no-break space U+00A0.
\<close>

definition is_space :: "char \<Rightarrow> bool" where
  "is_space c \<longleftrightarrow>
     c \<in> set [CHR 0x09, CHR 0x0A, CHR 0x0B, CHR 0x0C, CHR 0x0D, CHR 0x20, CHR 0xA0]"

definition trim :: "string \<Rightarrow> string" where
  "trim s = rev (dropWhile is_space (rev (dropWhile is_space s)))"

text \<open>\<^verbatim>\<open>new File({...})\<close>: the setters of \<open>name\<close>, \<open>originalName\<close> and \<open>path\<close> trim.\<close>

definition new_File :: "file_doc \<Rightarrow> file_doc" where
  "new_File f = f\<lparr>name := trim (name f), originalName := trim (originalName f), path := trim (path f)\<rparr>"

text \<open>
  The validators run by \<^verbatim>\<open>save()\<close>: \<open>name\<close> required and at most 255 long, \<open>path\<close>
  required, \<open>originalName\<close> and \<open>mimeType\<close> required for a file. An absent string is \<open>[]\<close>.
\<close>

definition schema_valid :: "file_doc \<Rightarrow> bool" where
  "schema_valid f \<longleftrightarrow>
     name f \<noteq> [] \<and> length (name f) \<le> 255 \<and> path f \<noteq> [] \<and>
     (ftype f = TFile \<longrightarrow> originalName f \<noteq> [] \<and> mimeType f \<noteq> [])"

subsection \<open>Shared queries of the create handlers\<close>

text \<open>
  \<^verbatim>\<open>File.findOne({name, type, parentFolder, owner, isDeleted: false})\<close>. The filter is cast
  through the schema, so the name is compared trimmed.
\<close>

definition findOne_sibling ::
  "db \<Rightarrow> string \<Rightarrow> file_type \<Rightarrow> nat option \<Rightarrow> nat \<Rightarrow> file_doc option" where
  "findOne_sibling s nm t p uid =
     find (\<lambda>f. name f = trim nm \<and> ftype f = t \<and> parentFolder f = p \<and> owner f = uid \<and> \<not> isDeleted f)
       (files s)"

text \<open>
  The \<^verbatim>\<open>// Build path\<close> block, the same in both create handlers: the root path unless the
  parent is found and belongs to the requester.
\<close>

definition build_path :: "db \<Rightarrow> nat \<Rightarrow> nat option \<Rightarrow> string \<Rightarrow> string" where
  "build_path s uid pf nm =
     (case pf of
        None \<Rightarrow> CHR ''/'' # nm
      | Some p \<Rightarrow>
          (case findById s p of
             None \<Rightarrow> CHR ''/'' # nm
           | Some parent \<Rightarrow>
               if owner parent = uid then path parent @ ''/'' @ nm else CHR ''/'' # nm))"

text \<open>
  The \<^verbatim>\<open>parentFolder\<close> field of a request body: absent or \<^verbatim>\<open>null\<close>, the empty string, the
  string \<^verbatim>\<open>'null'\<close>, a well-formed object id, or any other string.
\<close>

datatype parent_param = PNull | PEmptyStr | PNullStr | PId nat | PBad

subsection \<open>POST /api/files/folder\<close>

record folder_req =
  fr_name :: string
  fr_parentFolder :: parent_param

text \<open>
  The \<^verbatim>\<open>// Sanitize parentFolder\<close> block: \<^verbatim>\<open>'null'\<close> and \<^verbatim>\<open>''\<close> become \<^verbatim>\<open>null\<close>. (A string that
  is no object id has been refused by the validator before.)
\<close>

definition folder_parent :: "parent_param \<Rightarrow> nat option" where
  "folder_parent p = (case p of PId i \<Rightarrow> Some i | _ \<Rightarrow> None)"

definition createFolder_handler :: "env \<Rightarrow> db \<Rightarrow> nat \<Rightarrow> folder_req \<Rightarrow> response \<times> store_write list" where
  "createFolder_handler e s uid req =
     (let nm = trim (fr_name req) in
      if nm = [] \<or> fr_parentFolder req = PBad then (ValidationErrors, [])
      else
        (let pf = folder_parent (fr_parentFolder req) in
         if findOne_sibling s nm TFolder pf uid \<noteq> None then (Conflict, [])
         else
           (let folder = new_File
                  \<lparr>name = nm, originalName = [], ftype = TFolder, mimeType = [], fsize = 0,
                   path = build_path s uid pf nm, s3Key = None,
                   parentFolder = pf, owner = uid, isDeleted = False, deletedAt = None\<rparr>
            in if \<not> schema_valid folder then (ServerError, [])
               else (FolderCreated (length (files s)) folder, [InsertFile folder]))))"

definition createFolder :: "env \<Rightarrow> db \<Rightarrow> nat \<Rightarrow> folder_req \<Rightarrow> response \<times> db" where
  "createFolder e s uid req = exec e (createFolder_handler e s uid req) s"

subsection \<open>POST /api/files/upload\<close>

record multer_file =
  originalname :: string
  mimetype :: string
  size_m :: nat

record upload_req =
  req_file :: "multer_file option"
  body_name :: string
  body_parentFolder :: parent_param

definition MAX_STORAGE :: int where
  "MAX_STORAGE = 15 * 1024 * 1024 * 1024"

text \<open>
  The handler uses \<^verbatim>\<open>parentFolder || null\<close> in its query and in the document without
  sanitising it: a string that is no object id makes the query throw a cast error.
\<close>

definition upload_parent :: "parent_param \<Rightarrow> nat option option" where
  "upload_parent p =
     (case p of
        PNull \<Rightarrow> Some None
      | PEmptyStr \<Rightarrow> Some None
      | PId i \<Rightarrow> Some (Some i)
      | PNullStr \<Rightarrow> None
      | PBad \<Rightarrow> None)"

text \<open>\<^verbatim>\<open>const fileName = name || req.file.originalname\<close>\<close>

definition fileName_of :: "upload_req \<Rightarrow> multer_file \<Rightarrow> string" where
  "fileName_of req rf = (if body_name req = [] then originalname rf else body_name req)"

definition upload_handler :: "env \<Rightarrow> db \<Rightarrow> nat \<Rightarrow> upload_req \<Rightarrow> response \<times> store_write list" where
  "upload_handler e s uid req =
     (case req_file req of
        None \<Rightarrow> (NoFileUploaded, [])
      | Some rf \<Rightarrow>
          (case users s uid of
             None \<Rightarrow> (ServerError, [])
           | Some storageUsed \<Rightarrow>
               if storageUsed + int (size_m rf) > MAX_STORAGE then (QuotaExceeded, [])
               else
                 (let fileName = fileName_of req rf in
                  case upload_parent (body_parentFolder req) of
                    None \<Rightarrow> (ServerError, [])
                  | Some pf \<Rightarrow>
                      if findOne_sibling s fileName TFile pf uid \<noteq> None then (Conflict, [])
                      else
                        (let filePath = build_path s uid pf fileName in
                         case s3_put e uid (originalname rf) of
                           None \<Rightarrow> (ServerError, [])
                         | Some key \<Rightarrow>
                             (let file = new_File
                                    \<lparr>name = fileName, originalName = originalname rf, ftype = TFile,
                                     mimeType = mimetype rf, fsize = size_m rf, path = filePath,
                                     s3Key = Some key, parentFolder = pf, owner = uid,
                                     isDeleted = False, deletedAt = None\<rparr>
                              in if \<not> schema_valid file then (ServerError, [S3Put key])
                                 else
                                   (let used' = storageUsed + int (size_m rf) in
                                    (Uploaded (length (files s)) file used',
                                     [S3Put key, InsertFile file, SaveUser uid used'])))))))"

text \<open>
  The multer middleware in front of the handler: \<^verbatim>\<open>limits: {fileSize: 100 * 1024 * 1024}\<close>.
  A file part longer than the limit makes multer pass its error to \<^verbatim>\<open>next\<close>, and the
  handler is not called.
\<close>

definition fileSize_limit :: nat where
  "fileSize_limit = 100 * 1024 * 1024"

definition upload_route :: "env \<Rightarrow> db \<Rightarrow> nat \<Rightarrow> upload_req \<Rightarrow> response \<times> store_write list" where
  "upload_route e s uid req =
     (case req_file req of
        None \<Rightarrow> upload_handler e s uid req
      | Some rf \<Rightarrow>
          if size_m rf > fileSize_limit then (LimitFileSize, [])
          else upload_handler e s uid req)"

definition uploadFile :: "env \<Rightarrow> db \<Rightarrow> nat \<Rightarrow> upload_req \<Rightarrow> response \<times> db" where
  "uploadFile e s uid req = exec e (upload_route e s uid req) s"

subsection \<open>GET /api/files/:id/download\<close>

definition getDownloadUrl :: "env \<Rightarrow> db \<Rightarrow> nat \<Rightarrow> nat \<Rightarrow> response" where
  "getDownloadUrl e s uid i =
     (case findById s i of
        None \<Rightarrow> NotFound
      | Some f \<Rightarrow>
          if owner f \<noteq> uid then Forbidden
          else if ftype f = TFolder then InvalidKind
          else (case s3_sign e (s3Key f) of None \<Rightarrow> ServerError | Some url \<Rightarrow> DownloadUrl url))"

subsection \<open>Sequences of requests\<close>

datatype request =
    CreateFolder nat folder_req
  | UploadFile nat upload_req
  | DeleteEntry nat nat nat

definition handle :: "env \<Rightarrow> request \<Rightarrow> db \<Rightarrow> response \<times> db" where
  "handle e r s =
     (case r of
        CreateFolder uid req \<Rightarrow> createFolder e s uid req
      | UploadFile uid req \<Rightarrow> uploadFile e s uid req
      | DeleteEntry uid i now \<Rightarrow> deleteEntry e s uid i now)"

text \<open>Each request of a sequence comes with the environment it meets.\<close>

fun handle_all :: "(env \<times> request) list \<Rightarrow> db \<Rightarrow> db" where
  "handle_all [] s = s"
| "handle_all ((e, r) # rs) s = handle_all rs (snd (handle e r s))"

subsection \<open>A regular-expression engine for plain patterns\<close>

text \<open>
  The handlers build \<^verbatim>\<open>^<path>/\<close> from the stored path without escaping it. The engine
  below reads the patterns \<^verbatim>\<open>^a1...an\<close> whose \<open>ai\<close> are ordinary characters or the dot,
  the way PCRE does: an ordinary character matches itself, the dot any character but a
  line feed, and the match is anchored at the start of the subject only. It declines
  every other pattern.
\<close>

definition rx_special :: "char \<Rightarrow> bool" where
  "rx_special c \<longleftrightarrow> c \<in> set (CHR 0x5C # ''^$.|?*+()[]{}'')"

fun rx_atoms :: "string \<Rightarrow> string \<Rightarrow> bool" where
  "rx_atoms [] cs = True"
| "rx_atoms (p # ps) [] = False"
| "rx_atoms (p # ps) (c # cs) =
     ((if p = CHR ''.'' then c \<noteq> CHR 0x0A else p = c) \<and> rx_atoms ps cs)"

definition regex_lite :: "string \<Rightarrow> (string \<Rightarrow> bool) option" where
  "regex_lite pat =
     (case pat of
        [] \<Rightarrow> None
      | a # ps \<Rightarrow>
          if a = CHR ''^'' \<and> (\<forall>p \<in> set ps. p = CHR ''.'' \<or> \<not> rx_special p)
          then Some (rx_atoms ps) else None)"

subsection \<open>The quota invariant\<close>

text \<open>The bytes of the non-deleted files of a user.\<close>

definition live_bytes :: "db \<Rightarrow> nat \<Rightarrow> int" where
  "live_bytes s uid =
     int (sum_list (map fsize (filter (\<lambda>f. owner f = uid \<and> ftype f = TFile \<and> \<not> isDeleted f) (files s))))"

definition quota_consistent :: "db \<Rightarrow> nat \<Rightarrow> bool" where
  "quota_consistent s uid \<longleftrightarrow> users s uid = Some (live_bytes s uid)"

text \<open>What one document adds to the live bytes of a user.\<close>

definition live_weight :: "nat \<Rightarrow> file_doc \<Rightarrow> nat" where
  "live_weight uid f = (if owner f = uid \<and> ftype f = TFile \<and> \<not> isDeleted f then fsize f else 0)"

text \<open>Folders are stored with the schema's default size 0.\<close>

definition folders_empty :: "db \<Rightarrow> bool" where
  "folders_empty s \<longleftrightarrow> (\<forall>f\<in>set (files s). ftype f = TFolder \<longrightarrow> fsize f = 0)"

text \<open>A delete request whose target is a file of the requester that is deleted already.\<close>

definition redelete :: "db \<Rightarrow> request \<Rightarrow> bool" where
  "redelete s r =
     (case r of
        DeleteEntry uid i now \<Rightarrow>
          i < length (files s) \<and> owner (files s ! i) = uid \<and> ftype (files s ! i) = TFile \<and>
          isDeleted (files s ! i)
      | _ \<Rightarrow> False)"

text \<open>No request of the sequence is such a delete in the state it meets.\<close>

fun no_redelete :: "(env \<times> request) list \<Rightarrow> db \<Rightarrow> bool" where
  "no_redelete [] s = True"
| "no_redelete ((e, r) # rs) s = (\<not> redelete s r \<and> no_redelete rs (snd (handle e r s)))"

subsection \<open>Example data\<close>

text \<open>
  An environment where S3 never fails and hands out the key \<open>k-<name>\<close>, a store with
  one user (id 1) and no documents, the same user three hundred bytes from the
  capacity, and requests built from a name and a size.
\<close>

definition plain_env :: env where
  "plain_env =
     \<lparr>rx_compile = regex_lite, s3_delete_fails = (\<lambda>k. False),
      s3_put = (\<lambda>uid n. Some (''k-'' @ n)),
      s3_sign = map_option (\<lambda>k. ''https://s3/'' @ k)\<rparr>"

definition failing_s3_env :: env where
  "failing_s3_env = plain_env\<lparr>s3_delete_fails := (\<lambda>k. True)\<rparr>"

definition two_users :: db where
  "two_users = \<lparr>files = [], users = [1 \<mapsto> 0, 2 \<mapsto> 0], bucket = []\<rparr>"

definition one_user :: db where
  "one_user = \<lparr>files = [], users = [1 \<mapsto> 0], bucket = []\<rparr>"

definition nearly_full :: db where
  "nearly_full = \<lparr>files = [], users = [1 \<mapsto> 16106127060], bucket = []\<rparr>"

definition part_of :: "string \<Rightarrow> nat \<Rightarrow> multer_file" where
  "part_of n k = \<lparr>originalname = n, mimetype = ''text/plain'', size_m = k\<rparr>"

definition upload_of :: "string \<Rightarrow> nat \<Rightarrow> parent_param \<Rightarrow> upload_req" where
  "upload_of n k p = \<lparr>req_file = Some (part_of n k), body_name = [], body_parentFolder = p\<rparr>"

definition folder_of :: "string \<Rightarrow> parent_param \<Rightarrow> folder_req" where
  "folder_of n p = \<lparr>fr_name = n, fr_parentFolder = p\<rparr>"

text \<open>Documents as the two create handlers store them for these requests.\<close>

definition mk_file :: "string \<Rightarrow> string \<Rightarrow> nat \<Rightarrow> nat option \<Rightarrow> nat \<Rightarrow> file_doc" where
  "mk_file n p k pf uid =
     \<lparr>name = n, originalName = n, ftype = TFile, mimeType = ''text/plain'', fsize = k, path = p,
      s3Key = Some (''k-'' @ n), parentFolder = pf, owner = uid, isDeleted = False,
      deletedAt = None\<rparr>"

definition mk_folder :: "string \<Rightarrow> string \<Rightarrow> nat option \<Rightarrow> nat \<Rightarrow> file_doc" where
  "mk_folder n p pf uid =
     \<lparr>name = n, originalName = [], ftype = TFolder, mimeType = [], fsize = 0, path = p,
      s3Key = None, parentFolder = pf, owner = uid, isDeleted = False, deletedAt = None\<rparr>"

text \<open>
  User 1 after two uploads of a hundred bytes each, \<open>/a\<close> (id 0) and \<open>/b\<close> (id 1), and the
  same store after \<open>/a\<close> has been deleted once (at time 7).
\<close>

definition two_files :: db where
  "two_files =
     \<lparr>files = [mk_file ''a'' ''/a'' 100 None 1, mk_file ''b'' ''/b'' 100 None 1],
      users = [1 \<mapsto> 200], bucket = [''k-a'', ''k-b'']\<rparr>"

definition a_deleted :: db where
  "a_deleted =
     \<lparr>files = [mark_deleted 7 (mk_file ''a'' ''/a'' 100 None 1), mk_file ''b'' ''/b'' 100 None 1],
      users = [1 \<mapsto> 100], bucket = [''k-b'']\<rparr>"

text \<open>
  The store \<open>a_deleted\<close> after \<open>/a\<close> has been deleted a second time (at time 8).
\<close>

definition a_deleted_twice :: db where
  "a_deleted_twice =
     \<lparr>files = [mark_deleted 8 (mk_file ''a'' ''/a'' 100 None 1), mk_file ''b'' ''/b'' 100 None 1],
      users = [1 \<mapsto> 0], bucket = [''k-b'']\<rparr>"

text \<open>
  A store with two users: the folder \<open>/Docs\<close> of user 1 (id 0), the folder \<open>/Theirs\<close> of
  user 2 (id 1), and the file \<open>/notes.txt\<close> of user 1 (id 2).
\<close>

definition sample_db :: db where
  "sample_db =
     \<lparr>files = [mk_folder ''Docs'' ''/Docs'' None 1, mk_folder ''Theirs'' ''/Theirs'' None 2,
               mk_file ''notes.txt'' ''/notes.txt'' 500 None 1],
      users = [2 \<mapsto> 0, 1 \<mapsto> 500], bucket = [''k-notes.txt'']\<rparr>"

text \<open>
  The scenario of the specification: the folder \<open>/Docs\<close> (id 0) with \<open>report.pdf\<close> of 1000
  bytes in it (id 1), and \<open>notes.txt\<close> of 500 bytes at the root (id 2), all of user 1.
\<close>

definition docs_db :: db where
  "docs_db =
     \<lparr>files = [mk_folder ''Docs'' ''/Docs'' None 1,
               mk_file ''report.pdf'' ''/Docs/report.pdf'' 1000 (Some 0) 1,
               mk_file ''notes.txt'' ''/notes.txt'' 500 None 1],
      users = [1 \<mapsto> 1500], bucket = [''k-report.pdf'', ''k-notes.txt'']\<rparr>"

text \<open>
  A folder whose name holds a dot, \<open>/a.b\<close> (id 0), beside the folder \<open>/aXb\<close> (id 1) that
  holds the file \<open>/aXb/f\<close> of five bytes (id 2), all of user 1.
\<close>

definition dotted_db :: db where
  "dotted_db =
     \<lparr>files = [mk_folder ''a.b'' ''/a.b'' None 1, mk_folder ''aXb'' ''/aXb'' None 1,
               mk_file ''f'' ''/aXb/f'' 5 (Some 1) 1],
      users = [1 \<mapsto> 5], bucket = [''k-f'']\<rparr>"

section \<open>Properties\<close>

subsection \<open>Running writes\<close>

lemma run_Nil: "run e [] s = s"
  by (simp add: run_def)

lemma run_append: "run e (ws @ vs) s = run e vs (run e ws s)"
  by (simp add: run_def)

lemma exec_no_writes: "exec e (r, []) s = (r, s)"
  by (simp add: exec_def run_def)

subsection \<open>Unfolding the handlers on concrete requests\<close>

lemmas handler_defs =
  handle_def uploadFile_def upload_route_def upload_handler_def createFolder_def
  createFolder_handler_def deleteEntry_def delete_handler_def delete_file_branch_def
  delete_folder_branch_def report_storage_def exec_def run_def apply_write_def findById_def find_children_def
  s3_cleanup_def regex_of_path_def under_regex_def mark_deleted_def
  fileSize_limit_def MAX_STORAGE_def fileName_of_def upload_parent_def folder_parent_def
  findOne_sibling_def build_path_def new_File_def schema_valid_def trim_def is_space_def Let_def

lemmas example_defs =
  plain_env_def one_user_def two_users_def upload_of_def part_of_def folder_of_def
  mk_file_def mk_folder_def regex_lite_def rx_special_def

subsection \<open>The example stores are reachable\<close>

lemma two_files_reachable:
  "handle_all
     [(plain_env, UploadFile 1 (upload_of ''a'' 100 PNull)),
      (plain_env, UploadFile 1 (upload_of ''b'' 100 PNull))] one_user = two_files"
  by (simp add: handler_defs example_defs two_files_def)

lemma a_deleted_reachable:
  "snd (deleteEntry plain_env two_files 1 0 7) = a_deleted"
  by (simp add: handler_defs example_defs two_files_def a_deleted_def)

lemma a_deleted_twice_reachable:
  "handle_all
       [(plain_env, UploadFile 1 (upload_of ''a'' 100 PNull)),
        (plain_env, UploadFile 1 (upload_of ''b'' 100 PNull)),
        (plain_env, DeleteEntry 1 0 7),
        (plain_env, DeleteEntry 1 0 8)] one_user = a_deleted_twice"
  by (simp add: handler_defs example_defs a_deleted_twice_def)

lemma sample_db_reachable:
  "handle_all
       [(plain_env, CreateFolder 1 (folder_of ''Docs'' PNull)),
        (plain_env, CreateFolder 2 (folder_of ''Theirs'' PNull)),
        (plain_env, UploadFile 1 (upload_of ''notes.txt'' 500 PNull))]
       two_users = sample_db"
  by (simp add: handler_defs example_defs sample_db_def)

lemma docs_db_reachable:
  "handle_all
       [(plain_env, CreateFolder 1 (folder_of ''Docs'' PNull)),
        (plain_env, UploadFile 1 (upload_of ''report.pdf'' 1000 (PId 0))),
        (plain_env, UploadFile 1 (upload_of ''notes.txt'' 500 PNull))]
       one_user = docs_db"
  by (simp add: handler_defs example_defs docs_db_def)

lemma dotted_db_reachable:
  "handle_all
       [(plain_env, CreateFolder 1 (folder_of ''a.b'' PNull)),
        (plain_env, CreateFolder 1 (folder_of ''aXb'' PNull)),
        (plain_env, UploadFile 1 (upload_of ''f'' 5 (PId 1)))]
       one_user = dotted_db"
  by (simp add: handler_defs example_defs dotted_db_def)

subsection \<open>Trimming\<close>

lemma dropWhile_hd_id: "xs \<noteq> [] \<Longrightarrow> \<not> P (hd xs) \<Longrightarrow> dropWhile P xs = xs"
  by (cases xs) auto

lemma strip_right_prefix: "\<exists>c. a = rev (dropWhile P (rev a)) @ c"
proof -
  have "rev a = takeWhile P (rev a) @ dropWhile P (rev a)" by simp
  then have "a = rev (dropWhile P (rev a)) @ rev (takeWhile P (rev a))"
    by (metis rev_append rev_rev_ident)
  then show ?thesis by blast
qed

lemma trim_no_leading: "trim s \<noteq> [] \<Longrightarrow> \<not> is_space (hd (trim s))"
proof -
  assume ne: "trim s \<noteq> []"
  let ?a = "dropWhile is_space s"
  obtain c where c: "?a = trim s @ c" using strip_right_prefix[of ?a is_space] by (auto simp: trim_def)
  with ne have "hd (trim s) = hd ?a" by (metis hd_append2)
  moreover have "?a \<noteq> []" using c ne by auto
  then have "\<not> is_space (hd ?a)" by (metis hd_dropWhile)
  ultimately show ?thesis by simp
qed

lemma trim_idem: "trim (trim s) = trim s"
proof (cases "trim s = []")
  case True
  have "trim [] = []" by (simp add: trim_def)
  with True show ?thesis by simp
next
  case False
  then have "dropWhile is_space (trim s) = trim s"
    using trim_no_leading dropWhile_hd_id by blast
  then have "trim (trim s) = rev (dropWhile is_space (rev (trim s)))" by (simp add: trim_def)
  also have "\<dots> = trim s" by (simp add: trim_def)
  finally show ?thesis .
qed

lemma trim_nonempty: "c \<in> set s \<Longrightarrow> \<not> is_space c \<Longrightarrow> trim s \<noteq> []"
proof -
  assume c: "c \<in> set s" "\<not> is_space c"
  then have 1: "c \<in> set (dropWhile is_space s)"
    by (metis (full_types) UnE set_append set_takeWhileD takeWhile_dropWhile_id)
  then have "c \<in> set (rev (dropWhile is_space s))" by simp
  then have "c \<in> set (dropWhile is_space (rev (dropWhile is_space s)))" using c(2)
    by (metis (full_types) UnE set_append set_takeWhileD takeWhile_dropWhile_id)
  then have "dropWhile is_space (rev (dropWhile is_space s)) \<noteq> []" by (metis empty_iff list.set(1))
  then show ?thesis unfolding trim_def by (metis rev_is_Nil_conv)
qed

lemma slash_not_space: "\<not> is_space CHR ''/''" by (simp add: is_space_def)

lemma build_path_has_slash: "CHR ''/'' \<in> set (build_path s uid pf nm)"
  by (simp add: build_path_def split: option.splits)

lemma trim_build_path_nonempty: "trim (build_path s uid pf nm) \<noteq> []"
  using trim_nonempty[OF build_path_has_slash slash_not_space] .

subsection \<open>The path of a new entry\<close>

lemma create_folder_no_parent_error:
  "fst (createFolder_handler e s uid req) \<notin> {NotFound, Forbidden, InvalidKind}"
  by (auto simp: createFolder_handler_def Let_def split: if_splits)

lemma upload_no_parent_error:
  "fst (upload_handler e s uid req) \<notin> {NotFound, Forbidden, InvalidKind}"
  by (auto simp: upload_handler_def Let_def split: if_splits option.splits)

lemma build_path_cases:
  "build_path s uid pf nm =
     (case pf of
        None \<Rightarrow> ''/'' @ nm
      | Some p \<Rightarrow>
          if p < length (files s) \<and> owner (files s ! p) = uid
          then path (files s ! p) @ ''/'' @ nm else ''/'' @ nm)"
  by (simp add: build_path_def findById_def split: option.splits)

text \<open>What a successful create request answers and stores.\<close>

lemma trim_Nil: "trim [] = []"
  by (simp add: trim_def)

lemma fst_createFolder:
  "fst (createFolder e s uid req) = fst (createFolder_handler e s uid req)"
  by (simp add: createFolder_def exec_def)

lemma fst_uploadFile_cases:
  "fst (uploadFile e s uid req) = LimitFileSize \<or>
   fst (uploadFile e s uid req) = fst (upload_handler e s uid req)"
  by (simp add: uploadFile_def upload_route_def exec_def split: option.splits)

lemma createFolder_success:
  assumes "fst (createFolder e s uid req) = FolderCreated i f"
  shows "i = length (files s)"
    and "snd (createFolder e s uid req) = s\<lparr>files := files s @ [f]\<rparr>"
    and "f = \<lparr>name = trim (fr_name req), originalName = [], ftype = TFolder, mimeType = [],
              fsize = 0,
              path = trim (build_path s uid (folder_parent (fr_parentFolder req)) (trim (fr_name req))),
              s3Key = None, parentFolder = folder_parent (fr_parentFolder req), owner = uid,
              isDeleted = False, deletedAt = None\<rparr>"
    and "trim (fr_name req) \<noteq> []" and "length (trim (fr_name req)) \<le> 255"
    and "fr_parentFolder req \<noteq> PBad"
  using assms
  by (auto simp: createFolder_def createFolder_handler_def exec_def run_def apply_write_def
      new_File_def schema_valid_def trim_idem trim_Nil Let_def split: if_splits)

lemma uploadFile_success:
  assumes "fst (uploadFile e s uid req) = Uploaded i f u"
  shows "\<exists>rf used pf key.
      req_file req = Some rf \<and> size_m rf \<le> fileSize_limit \<and> users s uid = Some used \<and>
      used + int (size_m rf) \<le> MAX_STORAGE \<and>
      upload_parent (body_parentFolder req) = Some pf \<and>
      s3_put e uid (originalname rf) = Some key \<and>
      i = length (files s) \<and> u = used + int (size_m rf) \<and>
      files (snd (uploadFile e s uid req)) = files s @ [f] \<and>
      users (snd (uploadFile e s uid req)) = (users s)(uid \<mapsto> u) \<and>
      bucket (snd (uploadFile e s uid req)) = bucket s @ [key] \<and>
      f = \<lparr>name = trim (fileName_of req rf), originalName = trim (originalname rf), ftype = TFile,
           mimeType = mimetype rf, fsize = size_m rf,
           path = trim (build_path s uid pf (fileName_of req rf)),
           s3Key = Some key, parentFolder = pf, owner = uid, isDeleted = False,
           deletedAt = None\<rparr>"
  using assms
  by (auto simp: uploadFile_def upload_route_def upload_handler_def exec_def run_def apply_write_def
      new_File_def Let_def split: option.splits if_splits)


lemma createFolder_no_parent_error:
  "fst (createFolder e s uid req) \<notin> {NotFound, Forbidden, InvalidKind}"
  unfolding fst_createFolder by (rule create_folder_no_parent_error)

lemma uploadFile_no_parent_error:
  "fst (uploadFile e s uid req) \<notin> {NotFound, Forbidden, InvalidKind}"
  using fst_uploadFile_cases[of e s uid req] upload_no_parent_error[of e s uid req] by auto

text \<open>
  C5, as the operations have it. Neither create operation ever answers \<open>NotFound\<close>,
  \<open>Forbidden\<close> or \<open>InvalidKind\<close>. A created entry is appended to the collection as the
  response shows it, with the requester as owner and the parent id of the request as
  \<^verbatim>\<open>parentFolder\<close>, whether or not that id names a document. Its path is the parent's
  path, a slash and the name when the parent is found and belongs to the requester
  (whatever its kind, deleted or not), and a slash and the name otherwise, as it is when
  no parent is given. The name of a folder is trimmed by the validator, and the schema
  trims the stored path.
\<close>

theorem create_path_fallback:
  "fst (createFolder e s uid freq) \<notin> {NotFound, Forbidden, InvalidKind} \<and>
   fst (uploadFile e s uid ureq) \<notin> {NotFound, Forbidden, InvalidKind} \<and>
   (\<forall>i f. fst (createFolder e s uid freq) = FolderCreated i f \<longrightarrow>
      i = length (files s) \<and>
      files (snd (createFolder e s uid freq)) = files s @ [f] \<and>
      parentFolder f = folder_parent (fr_parentFolder freq) \<and> owner f = uid \<and>
      path f =
        (case folder_parent (fr_parentFolder freq) of
           None \<Rightarrow> trim (''/'' @ trim (fr_name freq))
         | Some p \<Rightarrow>
             if p < length (files s) \<and> owner (files s ! p) = uid
             then trim (path (files s ! p) @ ''/'' @ trim (fr_name freq))
             else trim (''/'' @ trim (fr_name freq)))) \<and>
   (\<forall>i f u. fst (uploadFile e s uid ureq) = Uploaded i f u \<longrightarrow>
      i = length (files s) \<and>
      files (snd (uploadFile e s uid ureq)) = files s @ [f] \<and> owner f = uid \<and>
      (\<exists>rf pf. req_file ureq = Some rf \<and> upload_parent (body_parentFolder ureq) = Some pf \<and>
         parentFolder f = pf \<and>
         path f =
           (case pf of
              None \<Rightarrow> trim (''/'' @ fileName_of ureq rf)
            | Some p \<Rightarrow>
                if p < length (files s) \<and> owner (files s ! p) = uid
                then trim (path (files s ! p) @ ''/'' @ fileName_of ureq rf)
                else trim (''/'' @ fileName_of ureq rf))))"
proof (intro conjI allI impI)
  show "fst (createFolder e s uid freq) \<notin> {NotFound, Forbidden, InvalidKind}"
    by (rule createFolder_no_parent_error)
  show "fst (uploadFile e s uid ureq) \<notin> {NotFound, Forbidden, InvalidKind}"
    by (rule uploadFile_no_parent_error)
next
  fix i f
  assume a: "fst (createFolder e s uid freq) = FolderCreated i f"
  note S = createFolder_success[OF a]
  show "i = length (files s)" by (rule S(1))
  show "files (snd (createFolder e s uid freq)) = files s @ [f]" by (simp add: S(2))
  show "parentFolder f = folder_parent (fr_parentFolder freq)" by (subst S(3)) simp
  show "owner f = uid" by (subst S(3)) simp
  show "path f =
        (case folder_parent (fr_parentFolder freq) of
           None \<Rightarrow> trim (''/'' @ trim (fr_name freq))
         | Some p \<Rightarrow>
             if p < length (files s) \<and> owner (files s ! p) = uid
             then trim (path (files s ! p) @ ''/'' @ trim (fr_name freq))
             else trim (''/'' @ trim (fr_name freq)))"
    by (subst S(3)) (simp add: build_path_cases split: option.splits)
next
  fix i f u
  assume a: "fst (uploadFile e s uid ureq) = Uploaded i f u"
  from uploadFile_success[OF a] obtain rf pf key where
    S: "req_file ureq = Some rf" "upload_parent (body_parentFolder ureq) = Some pf"
       "i = length (files s)" "files (snd (uploadFile e s uid ureq)) = files s @ [f]"
       "f = \<lparr>name = trim (fileName_of ureq rf), originalName = trim (originalname rf), ftype = TFile,
           mimeType = mimetype rf, fsize = size_m rf,
           path = trim (build_path s uid pf (fileName_of ureq rf)),
           s3Key = Some key, parentFolder = pf, owner = uid, isDeleted = False,
           deletedAt = None\<rparr>"
    by blast
  show "i = length (files s)" by (rule S(3))
  show "files (snd (uploadFile e s uid ureq)) = files s @ [f]" by (rule S(4))
  show "owner f = uid" by (subst S(5)) simp
  have "parentFolder f = pf" by (subst S(5)) simp
  moreover have "path f =
           (case pf of
              None \<Rightarrow> trim (''/'' @ fileName_of ureq rf)
            | Some p \<Rightarrow>
                if p < length (files s) \<and> owner (files s ! p) = uid
                then trim (path (files s ! p) @ ''/'' @ fileName_of ureq rf)
                else trim (''/'' @ fileName_of ureq rf))"
    by (subst S(5)) (simp add: build_path_cases split: option.splits)
  ultimately show "\<exists>rf pf. req_file ureq = Some rf \<and> upload_parent (body_parentFolder ureq) = Some pf \<and>
         parentFolder f = pf \<and>
         path f =
           (case pf of
              None \<Rightarrow> trim (''/'' @ fileName_of ureq rf)
            | Some p \<Rightarrow>
                if p < length (files s) \<and> owner (files s ! p) = uid
                then trim (path (files s ! p) @ ''/'' @ fileName_of ureq rf)
                else trim (''/'' @ fileName_of ureq rf))"
    using S(1,2) by blast
qed

text \<open>
  C5 as stated fails: under a parent id that names no document, under the folder of
  another user, and under a file, the folder is created and stored all the same.
\<close>

theorem create_under_bad_parent_counterexample:
  "findById sample_db 42 = None \<and>
   createFolder plain_env sample_db 1 (folder_of ''x'' (PId 42)) =
     (FolderCreated 3 (mk_folder ''x'' ''/x'' (Some 42) 1),
      sample_db\<lparr>files := files sample_db @ [mk_folder ''x'' ''/x'' (Some 42) 1]\<rparr>) \<and>
   map_option owner (findById sample_db 1) = Some 2 \<and>
   createFolder plain_env sample_db 1 (folder_of ''x'' (PId 1)) =
     (FolderCreated 3 (mk_folder ''x'' ''/x'' (Some 1) 1),
      sample_db\<lparr>files := files sample_db @ [mk_folder ''x'' ''/x'' (Some 1) 1]\<rparr>) \<and>
   map_option ftype (findById sample_db 2) = Some TFile \<and>
   createFolder plain_env sample_db 1 (folder_of ''x'' (PId 2)) =
     (FolderCreated 3 (mk_folder ''x'' ''/notes.txt/x'' (Some 2) 1),
      sample_db\<lparr>files := files sample_db @ [mk_folder ''x'' ''/notes.txt/x'' (Some 2) 1]\<rparr>)"
  by (simp add: handler_defs example_defs sample_db_def)

theorem create_path_fallback_witness:
  "fst (createFolder plain_env sample_db 1 (folder_of ''Sub'' (PId 0))) =
     FolderCreated 3 (mk_folder ''Sub'' ''/Docs/Sub'' (Some 0) 1) \<and>
   files (snd (createFolder plain_env sample_db 1 (folder_of ''Sub'' (PId 0)))) =
     files sample_db @ [mk_folder ''Sub'' ''/Docs/Sub'' (Some 0) 1] \<and>
   fst (uploadFile plain_env sample_db 1 (upload_of ''r.pdf'' 10 (PId 0))) =
     Uploaded 3 (mk_file ''r.pdf'' ''/Docs/r.pdf'' 10 (Some 0) 1) 510 \<and>
   files (snd (uploadFile plain_env sample_db 1 (upload_of ''r.pdf'' 10 (PId 0)))) =
     files sample_db @ [mk_file ''r.pdf'' ''/Docs/r.pdf'' 10 (Some 0) 1] \<and>
   fst (createFolder plain_env sample_db 1 (folder_of ''Top'' PNull)) =
     FolderCreated 3 (mk_folder ''Top'' ''/Top'' None 1) \<and>
   files (snd (createFolder plain_env sample_db 1 (folder_of ''Top'' PNull))) =
     files sample_db @ [mk_folder ''Top'' ''/Top'' None 1]"
proof -
  have f1: "fst (createFolder plain_env sample_db 1 (folder_of ''Sub'' (PId 0))) =
     FolderCreated 3 (mk_folder ''Sub'' ''/Docs/Sub'' (Some 0) 1)"
    by (simp add: handler_defs example_defs sample_db_def)
  have f2: "fst (uploadFile plain_env sample_db 1 (upload_of ''r.pdf'' 10 (PId 0))) =
     Uploaded 3 (mk_file ''r.pdf'' ''/Docs/r.pdf'' 10 (Some 0) 1) 510"
    by (simp add: handler_defs example_defs sample_db_def)
  have f3: "fst (createFolder plain_env sample_db 1 (folder_of ''Top'' PNull)) =
     FolderCreated 3 (mk_folder ''Top'' ''/Top'' None 1)"
    by (simp add: handler_defs example_defs sample_db_def)
  note A = create_path_fallback
    [where e = plain_env and s = sample_db and uid = 1 and freq = "folder_of ''Sub'' (PId 0)"
       and ureq = "upload_of ''r.pdf'' 10 (PId 0)"]
  note B = create_path_fallback
    [where e = plain_env and s = sample_db and uid = 1 and freq = "folder_of ''Top'' PNull"
       and ureq = "upload_of ''r.pdf'' 10 (PId 0)"]
  have s1: "files (snd (createFolder plain_env sample_db 1 (folder_of ''Sub'' (PId 0)))) =
     files sample_db @ [mk_folder ''Sub'' ''/Docs/Sub'' (Some 0) 1]"
    using A [THEN conjunct2, THEN conjunct2, THEN conjunct1, rule_format, OF f1] by blast
  have s2: "files (snd (uploadFile plain_env sample_db 1 (upload_of ''r.pdf'' 10 (PId 0)))) =
     files sample_db @ [mk_file ''r.pdf'' ''/Docs/r.pdf'' 10 (Some 0) 1]"
    using A [THEN conjunct2, THEN conjunct2, THEN conjunct2, rule_format, OF f2] by blast
  have s3: "files (snd (createFolder plain_env sample_db 1 (folder_of ''Top'' PNull))) =
     files sample_db @ [mk_folder ''Top'' ''/Top'' None 1]"
    using B [THEN conjunct2, THEN conjunct2, THEN conjunct1, rule_format, OF f3] by blast
  from f1 f2 f3 s1 s2 s3 show ?thesis by blast
qed

subsection \<open>Name collisions\<close>

lemma findOne_sibling_iff:
  "findOne_sibling s nm t pf uid \<noteq> None \<longleftrightarrow>
     (\<exists>f\<in>set (files s). name f = trim nm \<and> ftype f = t \<and> parentFolder f = pf \<and> owner f = uid \<and> \<not> isDeleted f)"
  by (auto simp: findOne_sibling_def find_None_iff)

lemma findOne_sibling_None:
  "findOne_sibling s nm t pf uid = None \<longleftrightarrow>
     \<not> (\<exists>f\<in>set (files s). name f = trim nm \<and> ftype f = t \<and> parentFolder f = pf \<and> owner f = uid \<and> \<not> isDeleted f)"
  by (auto simp: findOne_sibling_def find_None_iff)

lemma createFolder_Conflict_iff:
  "fst (createFolder_handler e s uid req) = Conflict \<longleftrightarrow>
     trim (fr_name req) \<noteq> [] \<and> fr_parentFolder req \<noteq> PBad \<and>
     findOne_sibling s (trim (fr_name req)) TFolder (folder_parent (fr_parentFolder req)) uid \<noteq> None"
  by (auto simp: createFolder_handler_def Let_def split: if_splits)

lemma upload_Conflict_iff:
  "fst (upload_handler e s uid req) = Conflict \<longleftrightarrow>
     (\<exists>rf used pf. req_file req = Some rf \<and> users s uid = Some used \<and>
        used + int (size_m rf) \<le> MAX_STORAGE \<and>
        upload_parent (body_parentFolder req) = Some pf \<and>
        findOne_sibling s (fileName_of req rf) TFile pf uid \<noteq> None)"
  by (auto simp: upload_handler_def Let_def split: if_splits option.splits)

lemma upload_succeeds:
  assumes "req_file req = Some rf" "users s uid = Some used"
    "used + int (size_m rf) \<le> MAX_STORAGE"
    "upload_parent (body_parentFolder req) = Some pf"
    "findOne_sibling s (fileName_of req rf) TFile pf uid = None"
    "s3_put e uid (originalname rf) = Some key"
    "trim (fileName_of req rf) \<noteq> []" "length (trim (fileName_of req rf)) \<le> 255"
    "trim (originalname rf) \<noteq> []" "mimetype rf \<noteq> []"
  shows "\<exists>f. fst (upload_handler e s uid req) = Uploaded (length (files s)) f (used + int (size_m rf)) \<and>
             name f = trim (fileName_of req rf) \<and> ftype f = TFile \<and> parentFolder f = pf \<and>
             owner f = uid \<and> \<not> isDeleted f"
  using assms trim_build_path_nonempty[of s uid pf "fileName_of req rf"]
  by (simp add: upload_handler_def Let_def new_File_def schema_valid_def)

lemma createFolder_succeeds:
  assumes "trim (fr_name req) \<noteq> []" "length (trim (fr_name req)) \<le> 255"
    "fr_parentFolder req \<noteq> PBad"
    "findOne_sibling s (trim (fr_name req)) TFolder (folder_parent (fr_parentFolder req)) uid = None"
  shows "\<exists>f. fst (createFolder_handler e s uid req) = FolderCreated (length (files s)) f \<and>
             name f = trim (fr_name req) \<and> ftype f = TFolder \<and>
             parentFolder f = folder_parent (fr_parentFolder req) \<and> owner f = uid \<and> \<not> isDeleted f"
  using assms trim_build_path_nonempty[of s uid "folder_parent (fr_parentFolder req)" "trim (fr_name req)"]
  by (simp add: createFolder_handler_def Let_def new_File_def schema_valid_def trim_idem)

subsection \<open>The upload size limit\<close>

text \<open>
  C10. An upload whose file part is longer than \<open>100 * 1024 * 1024\<close> bytes is refused by
  the multer middleware: the handler does not run, no write is issued, and the state
  (documents, bucket, \<^verbatim>\<open>storageUsed\<close>) is the one before the request.
\<close>

theorem upload_over_limit_rejected:
  assumes "req_file req = Some rf" and "size_m rf > 100 * 1024 * 1024"
  shows "upload_route e s uid req = (LimitFileSize, []) \<and>
         uploadFile e s uid req = (LimitFileSize, s)"
  using assms
  by (simp add: upload_route_def uploadFile_def exec_def run_def fileSize_limit_def)

theorem upload_over_limit_rejected_witness:
  "req_file (upload_of ''big'' 104857601 PNull) = Some (part_of ''big'' 104857601) \<and>
   size_m (part_of ''big'' 104857601) > 100 * 1024 * 1024 \<and>
   upload_route plain_env one_user 1 (upload_of ''big'' 104857601 PNull) = (LimitFileSize, []) \<and>
   uploadFile plain_env one_user 1 (upload_of ''big'' 104857601 PNull) = (LimitFileSize, one_user)"
proof -
  have h1: "req_file (upload_of ''big'' 104857601 PNull) = Some (part_of ''big'' 104857601)"
    by (simp add: upload_of_def)
  have h2: "size_m (part_of ''big'' 104857601) > 100 * 1024 * 1024"
    by (simp add: part_of_def)
  show ?thesis
    using h1 h2 upload_over_limit_rejected [OF h1 h2, of plain_env one_user 1] by simp
qed

subsection \<open>The quota check of an upload\<close>

lemma upload_route_within_limit:
  "req_file req = Some rf \<Longrightarrow> size_m rf \<le> fileSize_limit \<Longrightarrow>
   upload_route e s uid req = upload_handler e s uid req"
  by (simp add: upload_route_def)

text \<open>
  C4, as the route has it. For an upload whose file part is within the limit of the
  middleware and whose user is found: when \<^verbatim>\<open>storageUsed\<close> plus the size of the file is
  above the capacity of 15 GiB, the request answers \<open>QuotaExceeded\<close> without issuing any
  write (no S3 call among them) and the state is unchanged; otherwise the answer is not
  \<open>QuotaExceeded\<close>, and whenever the upload succeeds the new document is stored with the
  size of the file, and the reported and the stored \<^verbatim>\<open>storageUsed\<close> are the old value plus
  exactly that size.
\<close>

theorem upload_quota_check:
  assumes "req_file req = Some rf" and "size_m rf \<le> 100 * 1024 * 1024"
    and "users s uid = Some used"
  shows "(used + int (size_m rf) > 15 * 1024 * 1024 * 1024 \<longrightarrow>
            upload_route e s uid req = (QuotaExceeded, []) \<and>
            uploadFile e s uid req = (QuotaExceeded, s)) \<and>
         (used + int (size_m rf) \<le> 15 * 1024 * 1024 * 1024 \<longrightarrow>
            fst (uploadFile e s uid req) \<noteq> QuotaExceeded \<and>
            (\<forall>i f u. fst (uploadFile e s uid req) = Uploaded i f u \<longrightarrow>
               u = used + int (size_m rf) \<and> fsize f = size_m rf \<and>
               files (snd (uploadFile e s uid req)) = files s @ [f] \<and>
               users (snd (uploadFile e s uid req)) uid = Some (used + int (size_m rf))))"
  using assms
  by (auto simp: uploadFile_def upload_route_def fileSize_limit_def upload_handler_def
      MAX_STORAGE_def exec_def run_def apply_write_def new_File_def Let_def
      split: option.splits if_splits)

text \<open>
  C4 as stated fails for a file part above the limit of the middleware: with the counter
  three hundred bytes from the capacity, an upload of \<open>100 * 1024 * 1024 + 1\<close> bytes is over
  the quota, yet the answer is multer's error and not \<open>QuotaExceeded\<close>.
\<close>

theorem over_limit_upload_counterexample:
  "users nearly_full 1 = Some 16106127060 \<and>
   16106127060 + int (size_m (part_of ''big'' 104857601)) > 15 * 1024 * 1024 * 1024 \<and>
   req_file (upload_of ''big'' 104857601 PNull) = Some (part_of ''big'' 104857601) \<and>
   uploadFile plain_env nearly_full 1 (upload_of ''big'' 104857601 PNull) =
     (LimitFileSize, nearly_full)"
  by (simp add: uploadFile_def upload_route_def fileSize_limit_def exec_def run_def
      upload_of_def part_of_def nearly_full_def)

theorem upload_quota_check_witness:
  "req_file (upload_of ''a'' 500 PNull) = Some (part_of ''a'' 500) \<and>
   size_m (part_of ''a'' 500) \<le> 100 * 1024 * 1024 \<and>
   users nearly_full 1 = Some 16106127060 \<and>
   16106127060 + int (size_m (part_of ''a'' 500)) > 15 * 1024 * 1024 * 1024 \<and>
   uploadFile plain_env nearly_full 1 (upload_of ''a'' 500 PNull) = (QuotaExceeded, nearly_full) \<and>
   users one_user 1 = Some 0 \<and>
   0 + int (size_m (part_of ''a'' 500)) \<le> 15 * 1024 * 1024 * 1024 \<and>
   fst (uploadFile plain_env one_user 1 (upload_of ''a'' 500 PNull)) =
     Uploaded 0 (mk_file ''a'' ''/a'' 500 None 1) 500 \<and>
   files (snd (uploadFile plain_env one_user 1 (upload_of ''a'' 500 PNull))) =
     files one_user @ [mk_file ''a'' ''/a'' 500 None 1] \<and>
   users (snd (uploadFile plain_env one_user 1 (upload_of ''a'' 500 PNull))) 1 = Some 500"
proof -
  have h1: "req_file (upload_of ''a'' 500 PNull) = Some (part_of ''a'' 500)"
    by (simp add: upload_of_def)
  have h0: "size_m (part_of ''a'' 500) \<le> 100 * 1024 * 1024"
    by (simp add: part_of_def)
  have h2: "users nearly_full 1 = Some 16106127060"
    by (simp add: nearly_full_def)
  have h3: "users one_user 1 = Some 0"
    by (simp add: one_user_def)
  have sz: "size_m (part_of ''a'' 500) = 500"
    by (simp add: part_of_def)
  have up: "fst (uploadFile plain_env one_user 1 (upload_of ''a'' 500 PNull)) =
     Uploaded 0 (mk_file ''a'' ''/a'' 500 None 1) 500"
    by (simp add: handler_defs example_defs)
  show ?thesis
    using h0 h1 h2 h3 up
      upload_quota_check [OF h1 h0 h2, where e = plain_env]
      upload_quota_check [OF h1 h0 h3, where e = plain_env]
    by (simp add: sz)
qed

subsection \<open>Name collisions over two requests\<close>

lemma createFolder_Conflict_state:
  "fst (createFolder e s uid req) = Conflict \<Longrightarrow> snd (createFolder e s uid req) = s"
  by (auto simp: createFolder_def createFolder_handler_def exec_def run_def Let_def
      split: if_splits)

lemma uploadFile_Conflict_state:
  "fst (uploadFile e s uid req) = Conflict \<Longrightarrow> snd (uploadFile e s uid req) = s"
  by (auto simp: uploadFile_def upload_route_def upload_handler_def exec_def run_def Let_def
      split: option.splits if_splits)

lemma uploadFile_within_limit:
  "req_file req = Some rf \<Longrightarrow> size_m rf \<le> fileSize_limit \<Longrightarrow>
   uploadFile e s uid req = exec e (upload_handler e s uid req) s"
  by (simp add: uploadFile_def upload_route_within_limit)

lemma uploadFile_Conflict_iff:
  "fst (uploadFile e s uid req) = Conflict \<longleftrightarrow>
     (\<exists>rf used pf. req_file req = Some rf \<and> size_m rf \<le> fileSize_limit \<and>
        users s uid = Some used \<and> used + int (size_m rf) \<le> MAX_STORAGE \<and>
        upload_parent (body_parentFolder req) = Some pf \<and>
        (\<exists>f\<in>set (files s). name f = trim (fileName_of req rf) \<and> ftype f = TFile \<and>
           parentFolder f = pf \<and> owner f = uid \<and> \<not> isDeleted f))"
proof (cases "req_file req")
  case None
  then show ?thesis
    by (simp add: uploadFile_def upload_route_def upload_handler_def exec_def)
next
  case (Some rf)
  show ?thesis
  proof (cases "size_m rf \<le> fileSize_limit")
    case True
    show ?thesis
      unfolding uploadFile_within_limit[OF Some True] exec_def fst_conv upload_Conflict_iff
        findOne_sibling_iff
      using Some True by auto
  next
    case False
    then show ?thesis
      using Some by (simp add: uploadFile_def upload_route_def exec_def)
  qed
qed

lemma createFolder_Conflict_iff':
  "fst (createFolder e s uid req) = Conflict \<longleftrightarrow>
     trim (fr_name req) \<noteq> [] \<and> fr_parentFolder req \<noteq> PBad \<and>
     (\<exists>f\<in>set (files s). name f = trim (fr_name req) \<and> ftype f = TFolder \<and>
        parentFolder f = folder_parent (fr_parentFolder req) \<and> owner f = uid \<and> \<not> isDeleted f)"
  unfolding fst_createFolder createFolder_Conflict_iff findOne_sibling_iff trim_idem ..

text \<open>A second folder of the same name.\<close>

lemma folder_then_folder:
  assumes "fst (createFolder e s uid req) = FolderCreated i f"
    and "trim (fr_name req') = trim (fr_name req)" and "fr_parentFolder req' \<noteq> PBad"
    and "folder_parent (fr_parentFolder req') = folder_parent (fr_parentFolder req)"
  shows "createFolder e' (snd (createFolder e s uid req)) uid req' =
           (Conflict, snd (createFolder e s uid req))"
proof -
  note S = createFolder_success[OF assms(1)]
  let ?s1 = "snd (createFolder e s uid req)"
  have "f \<in> set (files ?s1)" by (simp add: S(2))
  moreover have "name f = trim (fr_name req')" "ftype f = TFolder"
    "parentFolder f = folder_parent (fr_parentFolder req')" "owner f = uid" "\<not> isDeleted f"
    using assms(2,4) by (subst S(3), simp)+
  ultimately have "fst (createFolder e' ?s1 uid req') = Conflict"
    unfolding createFolder_Conflict_iff' using S(4) assms(2,3) by auto
  then show ?thesis
    using createFolder_Conflict_state[of e' ?s1 uid req'] by (simp add: prod_eq_iff)
qed

text \<open>A file of the name of a folder just created.\<close>

lemma folder_then_file:
  assumes "fst (createFolder e s uid freq) = FolderCreated i f"
    and "req_file ureq = Some rf" and "size_m rf \<le> fileSize_limit"
    and "users s uid = Some used" and "used + int (size_m rf) \<le> MAX_STORAGE"
    and "upload_parent (body_parentFolder ureq) = Some (folder_parent (fr_parentFolder freq))"
    and "trim (fileName_of ureq rf) = trim (fr_name freq)"
    and "s3_put e' uid (originalname rf) = Some key"
    and "trim (originalname rf) \<noteq> []" and "mimetype rf \<noteq> []"
    and "\<not> (\<exists>d\<in>set (files s). name d = trim (fr_name freq) \<and> ftype d = TFile \<and>
              parentFolder d = folder_parent (fr_parentFolder freq) \<and> owner d = uid \<and>
              \<not> isDeleted d)"
  shows "\<exists>d. uploadFile e' (snd (createFolder e s uid freq)) uid ureq =
               (Uploaded (Suc (length (files s))) d (used + int (size_m rf)),
                s\<lparr>files := files s @ [f, d],
                  users := (users s)(uid \<mapsto> used + int (size_m rf)),
                  bucket := bucket s @ [key]\<rparr>) \<and>
             name d = name f \<and> ftype d = TFile \<and> ftype f = TFolder \<and>
             parentFolder d = parentFolder f \<and> owner d = uid \<and> owner f = uid \<and>
             \<not> isDeleted d \<and> \<not> isDeleted f"
proof -
  note S = createFolder_success[OF assms(1)]
  let ?s1 = "snd (createFolder e s uid freq)"
  let ?pf = "folder_parent (fr_parentFolder freq)"
  have f: "name f = trim (fr_name freq)" "ftype f = TFolder" "parentFolder f = ?pf"
    "owner f = uid" "\<not> isDeleted f"
    by (subst S(3), simp)+
  have s1: "files ?s1 = files s @ [f]" "users ?s1 = users s" "bucket ?s1 = bucket s"
    by (simp_all add: S(2))
  have none: "findOne_sibling ?s1 (fileName_of ureq rf) TFile ?pf uid = None"
    unfolding findOne_sibling_None s1 using assms(7,11) f(2) by auto
  from upload_succeeds[of ureq rf ?s1 uid used ?pf e' key]
  obtain d where d: "fst (upload_handler e' ?s1 uid ureq) =
        Uploaded (length (files ?s1)) d (used + int (size_m rf))"
      "name d = trim (fileName_of ureq rf)" "ftype d = TFile" "parentFolder d = ?pf"
      "owner d = uid" "\<not> isDeleted d"
    using assms(2,4-10) none S(4,5) s1(2) by auto
  then have up: "fst (uploadFile e' ?s1 uid ureq) = Uploaded (length (files ?s1)) d (used + int (size_m rf))"
    by (simp add: uploadFile_within_limit[OF assms(2,3)] exec_def)
  from uploadFile_success[OF up] assms(8,2)
  have st: "files (snd (uploadFile e' ?s1 uid ureq)) = files ?s1 @ [d]"
    "users (snd (uploadFile e' ?s1 uid ureq)) = (users ?s1)(uid \<mapsto> used + int (size_m rf))"
    "bucket (snd (uploadFile e' ?s1 uid ureq)) = bucket ?s1 @ [key]"
    by auto
  have "snd (uploadFile e' ?s1 uid ureq) =
      s\<lparr>files := files s @ [f, d], users := (users s)(uid \<mapsto> used + int (size_m rf)),
        bucket := bucket s @ [key]\<rparr>"
    using st by (simp add: s1)
  with up have "uploadFile e' ?s1 uid ureq =
               (Uploaded (Suc (length (files s))) d (used + int (size_m rf)),
                s\<lparr>files := files s @ [f, d],
                  users := (users s)(uid \<mapsto> used + int (size_m rf)),
                  bucket := bucket s @ [key]\<rparr>)"
    by (simp add: prod_eq_iff s1)
  with d f assms(7) show ?thesis by auto
qed

text \<open>A second file of the same name, past the size limit and the quota check.\<close>

lemma file_then_file:
  assumes "fst (uploadFile e s uid req) = Uploaded i f u"
    and "req_file req' = Some rf'" and "size_m rf' \<le> fileSize_limit"
    and "u + int (size_m rf') \<le> MAX_STORAGE"
    and "upload_parent (body_parentFolder req') = upload_parent (body_parentFolder req)"
    and "trim (fileName_of req' rf') = name f"
  shows "uploadFile e' (snd (uploadFile e s uid req)) uid req' =
           (Conflict, snd (uploadFile e s uid req))"
proof -
  let ?s1 = "snd (uploadFile e s uid req)"
  from uploadFile_success[OF assms(1)] obtain rf pf key where
    S: "upload_parent (body_parentFolder req) = Some pf"
       "files ?s1 = files s @ [f]" "users ?s1 = (users s)(uid \<mapsto> u)"
       "f = \<lparr>name = trim (fileName_of req rf), originalName = trim (originalname rf), ftype = TFile,
           mimeType = mimetype rf, fsize = size_m rf,
           path = trim (build_path s uid pf (fileName_of req rf)),
           s3Key = Some key, parentFolder = pf, owner = uid, isDeleted = False,
           deletedAt = None\<rparr>"
    by blast
  have f: "ftype f = TFile" "parentFolder f = pf" "owner f = uid" "\<not> isDeleted f"
    by (subst S(4), simp)+
  have "f \<in> set (files ?s1)" by (simp add: S(2))
  with f assms(2-6) S(1,3) have "fst (uploadFile e' ?s1 uid req') = Conflict"
    unfolding uploadFile_Conflict_iff by auto
  then show ?thesis
    using uploadFile_Conflict_state[of e' ?s1 uid req'] by (simp add: prod_eq_iff)
qed

text \<open>
  C7, as the operations have it. \<open>createFolder\<close> answers \<open>Conflict\<close> exactly when the name is
  not blank, the parent id is well formed and a non-deleted folder of the same owner,
  parent and trimmed name is stored. \<open>uploadFile\<close> answers \<open>Conflict\<close> exactly when the file
  part is within the limit of the middleware, the user is found, the quota check passes
  and a non-deleted file of the same owner, parent and trimmed name is stored. Either way
  the state is left as it was. Hence, once a folder has been created, a second
  \<open>createFolder\<close> of the same trimmed name under the same parent answers \<open>Conflict\<close> and
  changes nothing, while an upload of that name under that parent, which is within the
  size limit and the quota, whose S3 put succeeds, whose fields are valid and which meets
  no file of that name, succeeds and leaves the folder and the file side by side, the
  counter raised by the size of the file. And once a file has been uploaded, a second
  upload of its name under the same parent, within the size limit and the quota, answers
  \<open>Conflict\<close> and changes nothing.
\<close>

theorem collision_same_kind_only:
  "(fst (createFolder e s uid freq) = Conflict \<longleftrightarrow>
      trim (fr_name freq) \<noteq> [] \<and> fr_parentFolder freq \<noteq> PBad \<and>
      (\<exists>f\<in>set (files s). name f = trim (fr_name freq) \<and> ftype f = TFolder \<and>
         parentFolder f = folder_parent (fr_parentFolder freq) \<and> owner f = uid \<and> \<not> isDeleted f)) \<and>
   (fst (uploadFile e s uid ureq) = Conflict \<longleftrightarrow>
      (\<exists>rf used pf. req_file ureq = Some rf \<and> size_m rf \<le> fileSize_limit \<and>
         users s uid = Some used \<and> used + int (size_m rf) \<le> MAX_STORAGE \<and>
         upload_parent (body_parentFolder ureq) = Some pf \<and>
         (\<exists>f\<in>set (files s). name f = trim (fileName_of ureq rf) \<and> ftype f = TFile \<and>
            parentFolder f = pf \<and> owner f = uid \<and> \<not> isDeleted f))) \<and>
   (fst (createFolder e s uid freq) = Conflict \<longrightarrow> snd (createFolder e s uid freq) = s) \<and>
   (fst (uploadFile e s uid ureq) = Conflict \<longrightarrow> snd (uploadFile e s uid ureq) = s) \<and>
   (\<forall>i f e' freq'.
      fst (createFolder e s uid freq) = FolderCreated i f \<and>
      trim (fr_name freq') = trim (fr_name freq) \<and> fr_parentFolder freq' \<noteq> PBad \<and>
      folder_parent (fr_parentFolder freq') = folder_parent (fr_parentFolder freq) \<longrightarrow>
      createFolder e' (snd (createFolder e s uid freq)) uid freq' =
        (Conflict, snd (createFolder e s uid freq))) \<and>
   (\<forall>i f e' ureq' rf used key.
      fst (createFolder e s uid freq) = FolderCreated i f \<and>
      req_file ureq' = Some rf \<and> size_m rf \<le> fileSize_limit \<and>
      users s uid = Some used \<and> used + int (size_m rf) \<le> MAX_STORAGE \<and>
      upload_parent (body_parentFolder ureq') = Some (folder_parent (fr_parentFolder freq)) \<and>
      trim (fileName_of ureq' rf) = trim (fr_name freq) \<and>
      s3_put e' uid (originalname rf) = Some key \<and>
      trim (originalname rf) \<noteq> [] \<and> mimetype rf \<noteq> [] \<and>
      \<not> (\<exists>d\<in>set (files s). name d = trim (fr_name freq) \<and> ftype d = TFile \<and>
            parentFolder d = folder_parent (fr_parentFolder freq) \<and> owner d = uid \<and>
            \<not> isDeleted d) \<longrightarrow>
      (\<exists>d. uploadFile e' (snd (createFolder e s uid freq)) uid ureq' =
               (Uploaded (Suc (length (files s))) d (used + int (size_m rf)),
                s\<lparr>files := files s @ [f, d],
                  users := (users s)(uid \<mapsto> used + int (size_m rf)),
                  bucket := bucket s @ [key]\<rparr>) \<and>
            name d = name f \<and> ftype d = TFile \<and> ftype f = TFolder \<and>
            parentFolder d = parentFolder f \<and> owner d = uid \<and> owner f = uid \<and>
            \<not> isDeleted d \<and> \<not> isDeleted f)) \<and>
   (\<forall>i f u e' ureq' rf'.
      fst (uploadFile e s uid ureq) = Uploaded i f u \<and>
      req_file ureq' = Some rf' \<and> size_m rf' \<le> fileSize_limit \<and>
      u + int (size_m rf') \<le> MAX_STORAGE \<and>
      upload_parent (body_parentFolder ureq') = upload_parent (body_parentFolder ureq) \<and>
      trim (fileName_of ureq' rf') = name f \<longrightarrow>
      uploadFile e' (snd (uploadFile e s uid ureq)) uid ureq' =
        (Conflict, snd (uploadFile e s uid ureq)))"
proof (intro conjI allI impI)
  show "fst (createFolder e s uid freq) = Conflict \<longleftrightarrow>
      trim (fr_name freq) \<noteq> [] \<and> fr_parentFolder freq \<noteq> PBad \<and>
      (\<exists>f\<in>set (files s). name f = trim (fr_name freq) \<and> ftype f = TFolder \<and>
         parentFolder f = folder_parent (fr_parentFolder freq) \<and> owner f = uid \<and> \<not> isDeleted f)"
    by (rule createFolder_Conflict_iff')
  show "fst (uploadFile e s uid ureq) = Conflict \<longleftrightarrow>
      (\<exists>rf used pf. req_file ureq = Some rf \<and> size_m rf \<le> fileSize_limit \<and>
         users s uid = Some used \<and> used + int (size_m rf) \<le> MAX_STORAGE \<and>
         upload_parent (body_parentFolder ureq) = Some pf \<and>
         (\<exists>f\<in>set (files s). name f = trim (fileName_of ureq rf) \<and> ftype f = TFile \<and>
            parentFolder f = pf \<and> owner f = uid \<and> \<not> isDeleted f))"
    by (rule uploadFile_Conflict_iff)
next
  assume "fst (createFolder e s uid freq) = Conflict"
  then show "snd (createFolder e s uid freq) = s" by (rule createFolder_Conflict_state)
next
  assume "fst (uploadFile e s uid ureq) = Conflict"
  then show "snd (uploadFile e s uid ureq) = s" by (rule uploadFile_Conflict_state)
next
  fix i f and e' :: env and freq' :: folder_req
  assume a: "fst (createFolder e s uid freq) = FolderCreated i f \<and>
      trim (fr_name freq') = trim (fr_name freq) \<and> fr_parentFolder freq' \<noteq> PBad \<and>
      folder_parent (fr_parentFolder freq') = folder_parent (fr_parentFolder freq)"
  then show "createFolder e' (snd (createFolder e s uid freq)) uid freq' =
        (Conflict, snd (createFolder e s uid freq))"
    by (intro folder_then_folder[where i = i and f = f]) simp_all
next
  fix i f and e' :: env and ureq' :: upload_req and rf :: multer_file and used key
  assume a: "fst (createFolder e s uid freq) = FolderCreated i f \<and>
      req_file ureq' = Some rf \<and> size_m rf \<le> fileSize_limit \<and>
      users s uid = Some used \<and> used + int (size_m rf) \<le> MAX_STORAGE \<and>
      upload_parent (body_parentFolder ureq') = Some (folder_parent (fr_parentFolder freq)) \<and>
      trim (fileName_of ureq' rf) = trim (fr_name freq) \<and>
      s3_put e' uid (originalname rf) = Some key \<and>
      trim (originalname rf) \<noteq> [] \<and> mimetype rf \<noteq> [] \<and>
      \<not> (\<exists>d\<in>set (files s). name d = trim (fr_name freq) \<and> ftype d = TFile \<and>
            parentFolder d = folder_parent (fr_parentFolder freq) \<and> owner d = uid \<and>
            \<not> isDeleted d)"
  then show "\<exists>d. uploadFile e' (snd (createFolder e s uid freq)) uid ureq' =
               (Uploaded (Suc (length (files s))) d (used + int (size_m rf)),
                s\<lparr>files := files s @ [f, d],
                  users := (users s)(uid \<mapsto> used + int (size_m rf)),
                  bucket := bucket s @ [key]\<rparr>) \<and>
            name d = name f \<and> ftype d = TFile \<and> ftype f = TFolder \<and>
            parentFolder d = parentFolder f \<and> owner d = uid \<and> owner f = uid \<and>
            \<not> isDeleted d \<and> \<not> isDeleted f"
    by (intro folder_then_file[where i = i]) simp_all
next
  fix i f u and e' :: env and ureq' :: upload_req and rf' :: multer_file
  assume a: "fst (uploadFile e s uid ureq) = Uploaded i f u \<and>
      req_file ureq' = Some rf' \<and> size_m rf' \<le> fileSize_limit \<and>
      u + int (size_m rf') \<le> MAX_STORAGE \<and>
      upload_parent (body_parentFolder ureq') = upload_parent (body_parentFolder ureq) \<and>
      trim (fileName_of ureq' rf') = name f"
  then show "uploadFile e' (snd (uploadFile e s uid ureq)) uid ureq' =
        (Conflict, snd (uploadFile e s uid ureq))"
    by (intro file_then_file[where i = i and f = f and u = u and rf' = rf']) simp_all
qed

text \<open>
  C7 as stated fails for a second file that does not pass the checks made before the
  lookup of a sibling: with the file \<open>a\<close> stored, a second upload of the name \<open>a\<close> answers
  \<open>QuotaExceeded\<close> when it does not fit the quota, and multer's error when it is above
  the size limit, not \<open>Conflict\<close>.
\<close>

theorem second_file_counterexample:
  "fst (uploadFile plain_env nearly_full 1 (upload_of ''a'' 60 PNull)) =
     Uploaded 0 (mk_file ''a'' ''/a'' 60 None 1) 16106127120 \<and>
   fst (uploadFile plain_env (snd (uploadFile plain_env nearly_full 1 (upload_of ''a'' 60 PNull))) 1
          (upload_of ''a'' 500 PNull)) = QuotaExceeded \<and>
   fst (uploadFile plain_env one_user 1 (upload_of ''a'' 60 PNull)) =
     Uploaded 0 (mk_file ''a'' ''/a'' 60 None 1) 60 \<and>
   fst (uploadFile plain_env (snd (uploadFile plain_env one_user 1 (upload_of ''a'' 60 PNull))) 1
          (upload_of ''a'' 104857601 PNull)) = LimitFileSize"
  by (simp add: handler_defs example_defs nearly_full_def)

theorem collision_same_kind_only_witness:
  "fst (createFolder plain_env one_user 1 (folder_of ''Docs'' PNull)) =
     FolderCreated 0 (mk_folder ''Docs'' ''/Docs'' None 1) \<and>
   createFolder plain_env (snd (createFolder plain_env one_user 1 (folder_of ''Docs'' PNull))) 1
       (folder_of '' Docs '' PNull) =
     (Conflict, snd (createFolder plain_env one_user 1 (folder_of ''Docs'' PNull))) \<and>
   (\<exists>d. uploadFile plain_env (snd (createFolder plain_env one_user 1 (folder_of ''Docs'' PNull))) 1
          (upload_of ''Docs'' 10 PNull) =
        (Uploaded 1 d 10,
         one_user\<lparr>files := files one_user @ [mk_folder ''Docs'' ''/Docs'' None 1, d],
                  users := (users one_user)(1 \<mapsto> 10),
                  bucket := bucket one_user @ [''k-Docs'']\<rparr>) \<and>
        name d = ''Docs'' \<and> ftype d = TFile) \<and>
   fst (uploadFile plain_env one_user 1 (upload_of ''a'' 60 PNull)) =
     Uploaded 0 (mk_file ''a'' ''/a'' 60 None 1) 60 \<and>
   uploadFile plain_env (snd (uploadFile plain_env one_user 1 (upload_of ''a'' 60 PNull))) 1
       (upload_of ''a'' 500 PNull) =
     (Conflict, snd (uploadFile plain_env one_user 1 (upload_of ''a'' 60 PNull)))"
proof -
  note T = collision_same_kind_only [where e = plain_env and s = one_user and uid = 1
      and freq = "folder_of ''Docs'' PNull" and ureq = "upload_of ''a'' 60 PNull"]
  note B = T [THEN conjunct2, THEN conjunct2, THEN conjunct2, THEN conjunct2, THEN conjunct1,
      rule_format, where i = 0 and f = "mk_folder ''Docs'' ''/Docs'' None 1"
      and e' = plain_env and freq' = "folder_of '' Docs '' PNull"]
  note C = T [THEN conjunct2, THEN conjunct2, THEN conjunct2, THEN conjunct2, THEN conjunct2,
      THEN conjunct1, rule_format, where i = 0 and f = "mk_folder ''Docs'' ''/Docs'' None 1"
      and e' = plain_env and ureq' = "upload_of ''Docs'' 10 PNull" and rf = "part_of ''Docs'' 10"
      and used = 0 and key = "''k-Docs''"]
  note D = T [THEN conjunct2, THEN conjunct2, THEN conjunct2, THEN conjunct2, THEN conjunct2,
      THEN conjunct2, rule_format, where i = 0 and f = "mk_file ''a'' ''/a'' 60 None 1"
      and u = 60 and e' = plain_env and ureq' = "upload_of ''a'' 500 PNull"
      and rf' = "part_of ''a'' 500"]
  have c: "fst (createFolder plain_env one_user 1 (folder_of ''Docs'' PNull)) =
     FolderCreated 0 (mk_folder ''Docs'' ''/Docs'' None 1)"
    by (simp add: handler_defs example_defs)
  have u: "fst (uploadFile plain_env one_user 1 (upload_of ''a'' 60 PNull)) =
     Uploaded 0 (mk_file ''a'' ''/a'' 60 None 1) 60"
    by (simp add: handler_defs example_defs)
  have hb: "trim (fr_name (folder_of '' Docs '' PNull)) = trim (fr_name (folder_of ''Docs'' PNull)) \<and>
      fr_parentFolder (folder_of '' Docs '' PNull) \<noteq> PBad \<and>
      folder_parent (fr_parentFolder (folder_of '' Docs '' PNull)) =
        folder_parent (fr_parentFolder (folder_of ''Docs'' PNull))"
    by (simp add: trim_def is_space_def folder_of_def)
  have b: "createFolder plain_env (snd (createFolder plain_env one_user 1 (folder_of ''Docs'' PNull))) 1
       (folder_of '' Docs '' PNull) =
     (Conflict, snd (createFolder plain_env one_user 1 (folder_of ''Docs'' PNull)))"
    by (rule B) (rule conjI [OF c hb])
  have hc: "req_file (upload_of ''Docs'' 10 PNull) = Some (part_of ''Docs'' 10) \<and>
      size_m (part_of ''Docs'' 10) \<le> fileSize_limit \<and>
      users one_user 1 = Some 0 \<and> 0 + int (size_m (part_of ''Docs'' 10)) \<le> MAX_STORAGE \<and>
      upload_parent (body_parentFolder (upload_of ''Docs'' 10 PNull)) =
        Some (folder_parent (fr_parentFolder (folder_of ''Docs'' PNull))) \<and>
      trim (fileName_of (upload_of ''Docs'' 10 PNull) (part_of ''Docs'' 10)) =
        trim (fr_name (folder_of ''Docs'' PNull)) \<and>
      s3_put plain_env 1 (originalname (part_of ''Docs'' 10)) = Some ''k-Docs'' \<and>
      trim (originalname (part_of ''Docs'' 10)) \<noteq> [] \<and> mimetype (part_of ''Docs'' 10) \<noteq> [] \<and>
      \<not> (\<exists>d\<in>set (files one_user). name d = trim (fr_name (folder_of ''Docs'' PNull)) \<and>
            ftype d = TFile \<and>
            parentFolder d = folder_parent (fr_parentFolder (folder_of ''Docs'' PNull)) \<and>
            owner d = 1 \<and> \<not> isDeleted d)"
    by (simp add: handler_defs example_defs)
  have "\<exists>d. uploadFile plain_env (snd (createFolder plain_env one_user 1 (folder_of ''Docs'' PNull))) 1
          (upload_of ''Docs'' 10 PNull) =
        (Uploaded (Suc (length (files one_user))) d (0 + int (size_m (part_of ''Docs'' 10))),
         one_user\<lparr>files := files one_user @ [mk_folder ''Docs'' ''/Docs'' None 1, d],
                  users := (users one_user)(1 \<mapsto> 0 + int (size_m (part_of ''Docs'' 10))),
                  bucket := bucket one_user @ [''k-Docs'']\<rparr>) \<and>
        name d = name (mk_folder ''Docs'' ''/Docs'' None 1) \<and> ftype d = TFile \<and>
        ftype (mk_folder ''Docs'' ''/Docs'' None 1) = TFolder \<and>
        parentFolder d = parentFolder (mk_folder ''Docs'' ''/Docs'' None 1) \<and> owner d = 1 \<and>
        owner (mk_folder ''Docs'' ''/Docs'' None 1) = 1 \<and>
        \<not> isDeleted d \<and> \<not> isDeleted (mk_folder ''Docs'' ''/Docs'' None 1)"
    by (rule C) (rule conjI [OF c hc])
  then obtain d where d: "uploadFile plain_env (snd (createFolder plain_env one_user 1 (folder_of ''Docs'' PNull))) 1
          (upload_of ''Docs'' 10 PNull) =
        (Uploaded (Suc (length (files one_user))) d (0 + int (size_m (part_of ''Docs'' 10))),
         one_user\<lparr>files := files one_user @ [mk_folder ''Docs'' ''/Docs'' None 1, d],
                  users := (users one_user)(1 \<mapsto> 0 + int (size_m (part_of ''Docs'' 10))),
                  bucket := bucket one_user @ [''k-Docs'']\<rparr>)"
    and dn: "name d = name (mk_folder ''Docs'' ''/Docs'' None 1)" and dt: "ftype d = TFile"
    by blast
  have l: "Suc (length (files one_user)) = 1" "0 + int (size_m (part_of ''Docs'' 10)) = 10"
    "name (mk_folder ''Docs'' ''/Docs'' None 1) = ''Docs''"
    by (simp_all add: one_user_def part_of_def mk_folder_def)
  have cpart: "\<exists>d. uploadFile plain_env (snd (createFolder plain_env one_user 1 (folder_of ''Docs'' PNull))) 1
          (upload_of ''Docs'' 10 PNull) =
        (Uploaded 1 d 10,
         one_user\<lparr>files := files one_user @ [mk_folder ''Docs'' ''/Docs'' None 1, d],
                  users := (users one_user)(1 \<mapsto> 10),
                  bucket := bucket one_user @ [''k-Docs'']\<rparr>) \<and>
        name d = ''Docs'' \<and> ftype d = TFile"
    using d dn dt unfolding l by (intro exI[of _ d] conjI)
  have hd: "req_file (upload_of ''a'' 500 PNull) = Some (part_of ''a'' 500) \<and>
      size_m (part_of ''a'' 500) \<le> fileSize_limit \<and>
      60 + int (size_m (part_of ''a'' 500)) \<le> MAX_STORAGE \<and>
      upload_parent (body_parentFolder (upload_of ''a'' 500 PNull)) =
        upload_parent (body_parentFolder (upload_of ''a'' 60 PNull)) \<and>
      trim (fileName_of (upload_of ''a'' 500 PNull) (part_of ''a'' 500)) =
        name (mk_file ''a'' ''/a'' 60 None 1)"
    by (simp add: handler_defs example_defs)
  have dd: "uploadFile plain_env (snd (uploadFile plain_env one_user 1 (upload_of ''a'' 60 PNull))) 1
       (upload_of ''a'' 500 PNull) =
     (Conflict, snd (uploadFile plain_env one_user 1 (upload_of ''a'' 60 PNull)))"
    by (rule D) (rule conjI [OF u hd])
  show ?thesis by (intro conjI c b cpart u dd)
qed

subsection \<open>Lookups by id\<close>

lemma delete_lookup_errors:
  "(length (files s) \<le> i \<longrightarrow> deleteEntry e s uid i now = (NotFound, s)) \<and>
   (i < length (files s) \<and> owner (files s ! i) \<noteq> uid \<longrightarrow>
      deleteEntry e s uid i now = (Forbidden, s))"
  by (simp add: deleteEntry_def delete_handler_def findById_def exec_def run_def)

lemma getDownloadUrl_cases:
  "getDownloadUrl e s uid i =
     (if length (files s) \<le> i then NotFound
      else if owner (files s ! i) \<noteq> uid then Forbidden
      else if ftype (files s ! i) = TFolder then InvalidKind
      else (case s3_sign e (s3Key (files s ! i)) of
              None \<Rightarrow> ServerError
            | Some url \<Rightarrow> DownloadUrl url))"
  by (simp add: getDownloadUrl_def findById_def)

text \<open>
  C2 holds for an absent id and for another owner's entry (\<open>delete_lookup_errors\<close>), but
  not for an entry that is already soft-deleted: \<^verbatim>\<open>File.findById\<close> does not look at
  \<^verbatim>\<open>isDeleted\<close>. Deleting \<open>/a\<close> a second time succeeds and takes its hundred bytes off the
  counter once more.
\<close>

theorem delete_twice_second_succeeds:
  "isDeleted (files a_deleted ! 0) \<and>
   users a_deleted 1 = Some 100 \<and>
   fst (deleteEntry plain_env a_deleted 1 0 8) = Deleted 0 \<and>
   users (snd (deleteEntry plain_env a_deleted 1 0 8)) 1 = Some 0"
  by (simp add: handler_defs example_defs a_deleted_def)

text \<open>
  C6 holds for an absent id, another owner's entry and a folder (\<open>getDownloadUrl_cases\<close>),
  but a soft-deleted file still gets its signed URL.
\<close>

theorem download_of_deleted_file:
  "isDeleted (files a_deleted ! 0) \<and>
   getDownloadUrl plain_env a_deleted 1 0 = DownloadUrl ''https://s3/k-a''"
  by (simp add: getDownloadUrl_def handler_defs example_defs a_deleted_def)

subsection \<open>Kinds of writes in a script\<close>

lemma run_Cons: "run e (w # ws) s = run e ws (apply_write e w s)"
  by (simp add: run_def)

lemma users_apply_write: "\<not> is_quota_write w \<Longrightarrow> users (apply_write e w s) = users s"
  by (cases w) (simp_all add: apply_write_def split: option.splits)

lemma files_apply_write: "\<not> is_metadata_write w \<Longrightarrow> files (apply_write e w s) = files s"
  by (cases w) (simp_all add: apply_write_def)

lemma users_run: "\<forall>w\<in>set ws. \<not> is_quota_write w \<Longrightarrow> users (run e ws s) = users s"
  by (induction ws arbitrary: s) (simp_all add: run_Nil run_Cons users_apply_write)

lemma files_run: "\<forall>w\<in>set ws. \<not> is_metadata_write w \<Longrightarrow> files (run e ws s) = files s"
  by (induction ws arbitrary: s) (simp_all add: run_Nil run_Cons files_apply_write)

lemma s3_cleanup_shape: "s3_cleanup f = [] \<or> (\<exists>k. s3_cleanup f = [S3Delete k])"
  unfolding s3_cleanup_def by (cases "s3Key f") auto

lemma s3_cleanup_set: "set (s3_cleanup f) \<subseteq> range S3Delete"
  using s3_cleanup_shape[of f] by auto

lemma s3_cleanup_kind:
  assumes "w \<in> set (s3_cleanup f)"
  shows "\<not> is_metadata_write w \<and> \<not> is_quota_write w"
proof -
  from assms s3_cleanup_set obtain k where "w = S3Delete k" by blast
  then show ?thesis by simp
qed

lemma s3_cleanup_all_kind:
  assumes "w \<in> set (concat (map s3_cleanup cs))"
  shows "\<not> is_metadata_write w \<and> \<not> is_quota_write w"
proof -
  from assms obtain c where "w \<in> set (s3_cleanup c)" by auto
  then show ?thesis by (rule s3_cleanup_kind)
qed

text \<open>A script in two parts: no quota write in the first, no metadata write in the second.\<close>

lemma split_script_order:
  assumes "ws = ms @ rest"
    and "\<forall>w\<in>set ms. \<not> is_quota_write w" and "\<forall>w\<in>set rest. \<not> is_metadata_write w"
    and "j < length ws" and "k < length ws"
    and "is_metadata_write (ws ! j)" and "is_quota_write (ws ! k)"
  shows "j < k"
proof -
  have "j < length ms"
  proof (rule ccontr)
    assume "\<not> j < length ms"
    then have "ws ! j = rest ! (j - length ms)" and "j - length ms < length rest"
      using assms(1,4) by (simp_all add: nth_append)
    then show False using assms(3,6) by (metis nth_mem)
  qed
  moreover have "\<not> k < length ms"
  proof
    assume "k < length ms"
    then have "ws ! k = ms ! k" using assms(1) by (simp add: nth_append)
    then show False using assms(2,7) \<open>k < length ms\<close> by (metis nth_mem)
  qed
  ultimately show ?thesis by simp
qed

lemma split_script_prefix:
  assumes "ws = ms @ rest"
    and "\<forall>w\<in>set ms. \<not> is_quota_write w" and "\<forall>w\<in>set rest. \<not> is_metadata_write w"
    and "users (run e (take n ws) s) \<noteq> users s"
  shows "files (run e (take n ws) s) = files (run e ws s)"
proof (cases "n \<le> length ms")
  case True
  then have "take n ws = take n ms" using assms(1) by simp
  moreover have "\<forall>w\<in>set (take n ms). \<not> is_quota_write w"
    using assms(2) by (meson in_set_takeD)
  ultimately have "users (run e (take n ws) s) = users s" by (simp add: users_run)
  with assms(4) show ?thesis by simp
next
  case False
  then have t: "take n ws = ms @ take (n - length ms) rest" using assms(1) by simp
  have "\<forall>w\<in>set (take (n - length ms) rest). \<not> is_metadata_write w"
    using assms(3) by (meson in_set_takeD)
  then have "files (run e (take n ws) s) = files (run e ms s)"
    by (simp add: t run_append files_run)
  moreover have "files (run e ws s) = files (run e ms s)"
    using assms(1,3) by (simp add: run_append files_run)
  ultimately show ?thesis by simp
qed

lemma snd_report_storage: "snd (report_storage e s uid u ws) = ws"
  by (simp add: report_storage_def split: option.splits)

lemma report_storage_same:
  "users (run e ws s) uid = Some u \<Longrightarrow> report_storage e s uid u ws = (Deleted u, ws)"
  by (simp add: report_storage_def)

lemma file_branch_script:
  "snd (delete_file_branch e s uid i f) = [SaveFile i f] \<or>
   (\<exists>u. snd (delete_file_branch e s uid i f) = [SaveFile i f] @ (SaveUser uid u # s3_cleanup f))"
  by (simp add: delete_file_branch_def Let_def split: option.splits)

lemma folder_branch_script:
  "snd (delete_folder_branch e s uid i now f) = [SaveFile i f] \<or>
   (\<exists>cs. snd (delete_folder_branch e s uid i now f) =
      SaveFile i f # concat (map s3_cleanup cs) @ [UpdateManyDeleted uid (regex_of_path (path f)) now]) \<or>
   (\<exists>cs u. snd (delete_folder_branch e s uid i now f) =
      (SaveFile i f # concat (map s3_cleanup cs) @ [UpdateManyDeleted uid (regex_of_path (path f)) now]) @
      [SaveUser uid u])"
proof (cases "find_children e (run e [SaveFile i f] s) uid (regex_of_path (path f))")
  case None
  then show ?thesis by (simp add: delete_folder_branch_def Let_def)
next
  case (Some cs)
  define w3 where
    "w3 = SaveFile i f # concat (map s3_cleanup cs) @ [UpdateManyDeleted uid (regex_of_path (path f)) now]"
  have "snd (delete_folder_branch e s uid i now f) = w3 \<or>
        (\<exists>u. snd (delete_folder_branch e s uid i now f) = w3 @ [SaveUser uid u])"
    by (simp add: delete_folder_branch_def Let_def Some w3_def snd_report_storage
        split: option.splits)
  then show ?thesis unfolding w3_def by blast
qed

lemma delete_handler_script:
  "snd (delete_handler e s uid i now) = [] \<or>
   (\<exists>f. snd (delete_handler e s uid i now) = snd (delete_file_branch e s uid i f)) \<or>
   (\<exists>f. snd (delete_handler e s uid i now) = snd (delete_folder_branch e s uid i now f))"
  by (auto simp: delete_handler_def Let_def split: option.splits)

lemma delete_script_split:
  "\<exists>ms rest. snd (delete_handler e s uid i now) = ms @ rest \<and>
     (\<forall>w\<in>set ms. \<not> is_quota_write w) \<and> (\<forall>w\<in>set rest. \<not> is_metadata_write w)"
proof -
  define ws where "ws = snd (delete_handler e s uid i now)"
  have q: "\<forall>w\<in>set (SaveFile i f # concat (map s3_cleanup cs) @ [UpdateManyDeleted uid pat now]).
        \<not> is_quota_write w" for f cs pat
    using s3_cleanup_all_kind by auto
  have m: "\<forall>w\<in>set (SaveUser uid u # s3_cleanup f). \<not> is_metadata_write w" for u f
    using s3_cleanup_kind by auto
  consider (none) "ws = []"
    | (target) f where "ws = [SaveFile i f] @ []"
    | (file_done) f u where "ws = [SaveFile i f] @ (SaveUser uid u # s3_cleanup f)"
    | (folder) f cs pat where
        "ws = (SaveFile i f # concat (map s3_cleanup cs) @ [UpdateManyDeleted uid pat now]) @ []"
    | (folder_quota) f cs pat u where
        "ws = (SaveFile i f # concat (map s3_cleanup cs) @ [UpdateManyDeleted uid pat now]) @
              [SaveUser uid u]"
    using delete_handler_script[of e s uid i now] file_branch_script[of e s uid i]
      folder_branch_script[of e s uid i now]
    unfolding ws_def by (metis append_Nil2)
  then have "\<exists>ms rest. ws = ms @ rest \<and>
     (\<forall>w\<in>set ms. \<not> is_quota_write w) \<and> (\<forall>w\<in>set rest. \<not> is_metadata_write w)"
  proof cases
    case none
    then show ?thesis by simp
  next
    case (target f)
    show ?thesis
      by (rule exI[of _ "[SaveFile i f]"], rule exI[of _ "[]"]) (simp add: target)
  next
    case (file_done f u)
    show ?thesis
      by (rule exI[of _ "[SaveFile i f]"], rule exI[of _ "SaveUser uid u # s3_cleanup f"])
        (use file_done m[of u f] in simp)
  next
    case (folder f cs pat)
    show ?thesis
      by (rule exI[of _ "SaveFile i f # concat (map s3_cleanup cs) @ [UpdateManyDeleted uid pat now]"],
          rule exI[of _ "[]"]) (use folder q[of f cs pat] in simp)
  next
    case (folder_quota f cs pat u)
    show ?thesis
      by (rule exI[of _ "SaveFile i f # concat (map s3_cleanup cs) @ [UpdateManyDeleted uid pat now]"],
          rule exI[of _ "[SaveUser uid u]"]) (use folder_quota q[of f cs pat] in simp)
  qed
  then show ?thesis unfolding ws_def .
qed

subsection \<open>What a delete request leaves\<close>

lemma run_SaveFile:
  "i < length (files s) \<Longrightarrow> run e [SaveFile i f] s = s\<lparr>files := (files s)[i := f]\<rparr>"
  by (simp add: run_def apply_write_def)

lemma run_SaveUser: "run e [SaveUser uid u] s = s\<lparr>users := (users s)(uid \<mapsto> u)\<rparr>"
  by (simp add: run_def apply_write_def)

lemma run_UpdateMany:
  "rx_compile e pat = Some m \<Longrightarrow>
   run e [UpdateManyDeleted uid pat now] s =
     s\<lparr>files := map (\<lambda>f. if under_regex m uid f then mark_deleted now f else f) (files s)\<rparr>"
  by (simp add: run_def apply_write_def)

lemma files_run_cleanup: "files (run e (concat (map s3_cleanup cs)) s) = files s"
  using s3_cleanup_all_kind by (intro files_run) blast

lemma users_run_cleanup: "users (run e (concat (map s3_cleanup cs)) s) = users s"
  using s3_cleanup_all_kind by (intro users_run) blast

lemma files_run_cleanup1: "files (run e (s3_cleanup f) s) = files s"
  using s3_cleanup_kind by (intro files_run) blast

lemma users_run_cleanup1: "users (run e (s3_cleanup f) s) = users s"
  using s3_cleanup_kind by (intro users_run) blast

lemma delete_file_branch_eval:
  assumes "i < length (files s)" and "users s uid = Some used"
  shows "delete_file_branch e s uid i f =
           (Deleted (max 0 (used - int (fsize f))),
            [SaveFile i f, SaveUser uid (max 0 (used - int (fsize f)))] @ s3_cleanup f)"
  using assms by (simp add: delete_file_branch_def run_SaveFile Let_def)

lemma delete_file_branch_state:
  assumes "i < length (files s)" and "users s uid = Some used"
  shows "files (run e (snd (delete_file_branch e s uid i f)) s) = (files s)[i := f]"
    and "users (run e (snd (delete_file_branch e s uid i f)) s) =
           (users s)(uid \<mapsto> max 0 (used - int (fsize f)))"
proof -
  let ?u = "max 0 (used - int (fsize f))"
  have ws: "snd (delete_file_branch e s uid i f) = [SaveFile i f] @ [SaveUser uid ?u] @ s3_cleanup f"
    using assms by (simp add: delete_file_branch_eval)
  show "files (run e (snd (delete_file_branch e s uid i f)) s) = (files s)[i := f]"
    unfolding ws run_append using assms(1)
    by (simp add: files_run_cleanup1 run_SaveUser run_SaveFile)
  show "users (run e (snd (delete_file_branch e s uid i f)) s) = (users s)(uid \<mapsto> ?u)"
    unfolding ws run_append using assms(1)
    by (simp add: users_run_cleanup1 run_SaveUser run_SaveFile)
qed

text \<open>The documents a folder's cascade finds, their bytes, and the counter it stores.\<close>

lemma delete_folder_branch_eval:
  fixes now :: nat
  assumes "i < length (files s)" and "users s uid = Some used"
    and "rx_compile e (regex_of_path (path f)) = Some m"
  defines "cs \<equiv> filter (under_regex m uid) ((files s)[i := f])"
  defines "w3 \<equiv> SaveFile i f # concat (map s3_cleanup cs) @
                   [UpdateManyDeleted uid (regex_of_path (path f)) now]"
  defines "tot \<equiv> sum_list (map fsize cs)"
  defines "u \<equiv> (if tot > 0 then max 0 (used - int tot) else used)"
  shows "delete_folder_branch e s uid i now f =
           (Deleted u, w3 @ (if tot > 0 then [SaveUser uid u] else []))"
proof -
  have fc: "find_children e (run e [SaveFile i f] s) uid (regex_of_path (path f)) = Some cs"
    using assms(1,3) by (simp add: find_children_def run_SaveFile cs_def)
  have nq: "\<forall>w\<in>set w3. \<not> is_quota_write w"
    unfolding w3_def using s3_cleanup_all_kind by auto
  have u3: "users (run e w3 s) uid = Some used"
    using assms(2) by (simp add: users_run[OF nq])
  have u4: "users (run e (w3 @ [SaveUser uid v]) s) uid = Some v" for v
    by (simp add: run_append run_SaveUser)
  have split: "delete_folder_branch e s uid i now f =
      (if tot > 0
       then report_storage e s uid (max 0 (used - int tot))
              (w3 @ [SaveUser uid (max 0 (used - int tot))])
       else report_storage e s uid used w3)"
    using fc u3 unfolding w3_def tot_def
    by (simp add: delete_folder_branch_def Let_def del: sum_list_eq_0_iff)
  show ?thesis
  proof (cases "tot > 0")
    case True
    then show ?thesis
      unfolding split u_def by (simp add: report_storage_same[OF u4])
  next
    case False
    then show ?thesis
      unfolding split u_def by (simp add: report_storage_same[OF u3])
  qed
qed

lemma delete_folder_branch_state:
  fixes now :: nat
  assumes "i < length (files s)" and "users s uid = Some used"
    and "rx_compile e (regex_of_path (path f)) = Some m"
  defines "cs \<equiv> filter (under_regex m uid) ((files s)[i := f])"
  defines "tot \<equiv> sum_list (map fsize cs)"
  defines "u \<equiv> (if tot > 0 then max 0 (used - int tot) else used)"
  shows "files (run e (snd (delete_folder_branch e s uid i now f)) s) =
           map (\<lambda>d. if under_regex m uid d then mark_deleted now d else d) ((files s)[i := f])"
    and "users (run e (snd (delete_folder_branch e s uid i now f)) s) uid = Some u"
proof -
  let ?w3 = "SaveFile i f # concat (map s3_cleanup cs) @
               [UpdateManyDeleted uid (regex_of_path (path f)) now]"
  let ?q = "if tot > 0 then [SaveUser uid u] else []"
  have ws: "snd (delete_folder_branch e s uid i now f) = ?w3 @ ?q"
    using delete_folder_branch_eval[OF assms(1-3), of now]
    by (simp add: cs_def tot_def u_def)
  have w3: "?w3 = [SaveFile i f] @ concat (map s3_cleanup cs) @
               [UpdateManyDeleted uid (regex_of_path (path f)) now]"
    by simp
  have f3: "files (run e ?w3 s) =
      map (\<lambda>d. if under_regex m uid d then mark_deleted now d else d) ((files s)[i := f])"
    unfolding w3 run_append
    by (simp add: run_UpdateMany[OF assms(3)] files_run_cleanup run_SaveFile[OF assms(1)])
  have u3: "users (run e ?w3 s) = users s"
    unfolding w3 run_append
    by (simp add: run_UpdateMany[OF assms(3)] users_run_cleanup run_SaveFile[OF assms(1)])
  show "files (run e (snd (delete_folder_branch e s uid i now f)) s) =
           map (\<lambda>d. if under_regex m uid d then mark_deleted now d else d) ((files s)[i := f])"
    unfolding ws run_append using f3 by (simp add: run_SaveUser run_Nil)
  show "users (run e (snd (delete_folder_branch e s uid i now f)) s) uid = Some u"
    unfolding ws run_append using u3 assms(2) by (simp add: run_SaveUser run_Nil u_def)
qed

lemma delete_handler_file:
  assumes "i < length (files s)" and "owner (files s ! i) = uid" and "ftype (files s ! i) = TFile"
  shows "delete_handler e s uid i now =
           delete_file_branch e s uid i (mark_deleted now (files s ! i))"
  using assms by (simp add: delete_handler_def findById_def mark_deleted_def Let_def)

lemma delete_handler_folder:
  assumes "i < length (files s)" and "owner (files s ! i) = uid" and "ftype (files s ! i) = TFolder"
  shows "delete_handler e s uid i now =
           delete_folder_branch e s uid i now (mark_deleted now (files s ! i))"
  using assms by (simp add: delete_handler_def findById_def mark_deleted_def Let_def)

subsection \<open>S3 failures and the documents\<close>

lemma apply_write_docs:
  assumes "files t = files s" and "users t = users s"
  shows "files (apply_write (e\<lparr>s3_delete_fails := g\<rparr>) w t) = files (apply_write e w s) \<and>
         users (apply_write (e\<lparr>s3_delete_fails := g\<rparr>) w t) = users (apply_write e w s)"
  using assms by (cases w) (simp_all add: apply_write_def split: option.splits)

lemma run_docs_rel:
  "files t = files s \<Longrightarrow> users t = users s \<Longrightarrow>
   files (run (e\<lparr>s3_delete_fails := g\<rparr>) ws t) = files (run e ws s) \<and>
   users (run (e\<lparr>s3_delete_fails := g\<rparr>) ws t) = users (run e ws s)"
proof (induction ws arbitrary: s t)
  case Nil
  then show ?case by (simp add: run_Nil)
next
  case (Cons w ws)
  from apply_write_docs[OF Cons.prems, where e=e and g=g and w=w]
  show ?case unfolding run_Cons by (intro Cons.IH) simp_all
qed

lemma run_docs:
  "files (run (e\<lparr>s3_delete_fails := g\<rparr>) ws s) = files (run e ws s)"
  "users (run (e\<lparr>s3_delete_fails := g\<rparr>) ws s) = users (run e ws s)"
  using run_docs_rel[where s=s and t=s and e=e and g=g and ws=ws] by simp_all

lemma report_storage_ignores_s3:
  "report_storage (e\<lparr>s3_delete_fails := g\<rparr>) s uid u ws = report_storage e s uid u ws"
  by (simp add: report_storage_def run_docs)

lemma file_branch_ignores_s3:
  "delete_file_branch (e\<lparr>s3_delete_fails := g\<rparr>) s uid i f = delete_file_branch e s uid i f"
  by (simp add: delete_file_branch_def run_docs Let_def)

lemma folder_branch_ignores_s3:
  "delete_folder_branch (e\<lparr>s3_delete_fails := g\<rparr>) s uid i now f =
   delete_folder_branch e s uid i now f"
  by (simp add: delete_folder_branch_def find_children_def run_docs report_storage_ignores_s3
      Let_def split: option.splits del: sum_list_eq_0_iff)

lemma delete_handler_ignores_s3:
  "delete_handler (e\<lparr>s3_delete_fails := g\<rparr>) s uid i now = delete_handler e s uid i now"
  by (simp add: delete_handler_def file_branch_ignores_s3 folder_branch_ignores_s3 Let_def
      split: option.splits)

lemma isDeleted_mark [simp]: "isDeleted (mark_deleted now f)"
  by (simp add: mark_deleted_def)

lemma mark_deleted_keeps [simp]:
  "owner (mark_deleted now f) = owner f" "ftype (mark_deleted now f) = ftype f"
  "path (mark_deleted now f) = path f" "fsize (mark_deleted now f) = fsize f"
  "s3Key (mark_deleted now f) = s3Key f"
  by (simp_all add: mark_deleted_def)

lemma not_under_regex_mark [simp]: "\<not> under_regex m uid (mark_deleted now f)"
  by (simp add: under_regex_def)

lemma cascade_marks:
  assumes "i < length xs" and "j < length xs" and "j = i \<or> under_regex m uid (xs ! j)"
  shows "isDeleted (map (\<lambda>d. if under_regex m uid d then mark_deleted now d else d)
                      (xs[i := mark_deleted now (xs ! i)]) ! j)"
  using assms by (cases "j = i") simp_all

lemma cascade_keeps:
  assumes "j < length xs" and "j \<noteq> i" and "\<not> under_regex m uid (xs ! j)"
  shows "map (\<lambda>d. if under_regex m uid d then mark_deleted now d else d)
           (xs[i := mark_deleted now (xs ! i)]) ! j = xs ! j"
  using assms by simp

lemma deleteEntry_file:
  assumes "i < length (files s)" and "owner (files s ! i) = uid" and "ftype (files s ! i) = TFile"
    and "users s uid = Some used"
  shows "fst (deleteEntry e s uid i now) = Deleted (max 0 (used - int (fsize (files s ! i))))"
    and "files (snd (deleteEntry e s uid i now)) = (files s)[i := mark_deleted now (files s ! i)]"
    and "users (snd (deleteEntry e s uid i now)) =
           (users s)(uid \<mapsto> max 0 (used - int (fsize (files s ! i))))"
  using assms delete_file_branch_state[OF assms(1,4), of e "mark_deleted now (files s ! i)"]
  by (simp_all add: deleteEntry_def exec_def delete_handler_file delete_file_branch_eval)

lemma deleteEntry_folder:
  fixes now :: nat
  assumes "i < length (files s)" and "owner (files s ! i) = uid" and "ftype (files s ! i) = TFolder"
    and "users s uid = Some used"
    and "rx_compile e (regex_of_path (path (files s ! i))) = Some m"
  defines "tot \<equiv> sum_list (map fsize (filter (under_regex m uid)
                      ((files s)[i := mark_deleted now (files s ! i)])))"
  defines "u \<equiv> (if tot > 0 then max 0 (used - int tot) else used)"
  shows "fst (deleteEntry e s uid i now) = Deleted u"
    and "files (snd (deleteEntry e s uid i now)) =
           map (\<lambda>d. if under_regex m uid d then mark_deleted now d else d)
             ((files s)[i := mark_deleted now (files s ! i)])"
    and "users (snd (deleteEntry e s uid i now)) uid = Some u"
proof -
  have rx: "rx_compile e (regex_of_path (path (mark_deleted now (files s ! i)))) = Some m"
    using assms(5) by simp
  note ev = delete_folder_branch_eval[OF assms(1,4) rx, of now]
  note st = delete_folder_branch_state[OF assms(1,4) rx, of now]
  show "fst (deleteEntry e s uid i now) = Deleted u"
    using assms(1-3) ev
    by (simp add: deleteEntry_def exec_def delete_handler_folder tot_def u_def
        del: sum_list_eq_0_iff)
  show "files (snd (deleteEntry e s uid i now)) =
           map (\<lambda>d. if under_regex m uid d then mark_deleted now d else d)
             ((files s)[i := mark_deleted now (files s ! i)])"
    using assms(1-3) st(1) by (simp add: deleteEntry_def exec_def delete_handler_folder)
  show "users (snd (deleteEntry e s uid i now)) uid = Some u"
    using assms(1-3) st(2)
    by (simp add: deleteEntry_def exec_def delete_handler_folder tot_def u_def
        del: sum_list_eq_0_iff)
qed

text \<open>The scenario of the specification, evaluated.\<close>

lemma docs_script:
  "snd (delete_handler plain_env docs_db 1 0 9) =
     [SaveFile 0 (mark_deleted 9 (mk_folder ''Docs'' ''/Docs'' None 1)),
      S3Delete ''k-report.pdf'',
      UpdateManyDeleted 1 ''^/Docs/'' 9,
      SaveUser 1 500]"
  by (simp add: handler_defs example_defs docs_db_def)

lemma docs_delete_plain:
  "deleteEntry plain_env docs_db 1 0 9 =
     (Deleted 500,
      \<lparr>files = [mark_deleted 9 (mk_folder ''Docs'' ''/Docs'' None 1),
                mark_deleted 9 (mk_file ''report.pdf'' ''/Docs/report.pdf'' 1000 (Some 0) 1),
                mk_file ''notes.txt'' ''/notes.txt'' 500 None 1],
       users = [1 \<mapsto> 500], bucket = [''k-notes.txt'']\<rparr>)"
  by (simp add: handler_defs example_defs docs_db_def)

subsection \<open>Metadata writes come before the quota write\<close>

lemma delete_no_quota_write:
  assumes "\<not> (i < length (files s) \<and> owner (files s ! i) = uid \<and> users s uid \<noteq> None \<and>
              (ftype (files s ! i) = TFolder \<longrightarrow>
                 rx_compile e (regex_of_path (path (files s ! i))) \<noteq> None))"
  shows "\<forall>w\<in>set (snd (delete_handler e s uid i now)). \<not> is_quota_write w"
proof (cases "i < length (files s) \<and> owner (files s ! i) = uid")
  case False
  then show ?thesis by (auto simp: delete_handler_def findById_def)
next
  case True
  then have 1: "i < length (files s)" and 2: "owner (files s ! i) = uid" by simp_all
  let ?f = "mark_deleted now (files s ! i)"
  show ?thesis
  proof (cases "ftype (files s ! i)")
    case TFile
    with assms True have "users s uid = None" by simp
    then have "snd (delete_file_branch e s uid i ?f) = [SaveFile i ?f]"
      using 1 by (simp add: delete_file_branch_def run_SaveFile Let_def)
    then show ?thesis by (simp add: delete_handler_file[OF 1 2 TFile])
  next
    case TFolder
    show ?thesis
    proof (cases "find_children e (run e [SaveFile i ?f] s) uid (regex_of_path (path ?f))")
      case None
      then have "snd (delete_folder_branch e s uid i now ?f) = [SaveFile i ?f]"
        by (simp add: delete_folder_branch_def Let_def)
      then show ?thesis by (simp add: delete_handler_folder[OF 1 2 TFolder])
    next
      case (Some cs)
      then have "rx_compile e (regex_of_path (path (files s ! i))) \<noteq> None"
        by (auto simp: find_children_def split: option.splits)
      with assms True TFolder have un: "users s uid = None" by simp
      let ?w3 = "[SaveFile i ?f] @ concat (map s3_cleanup cs) @
                   [UpdateManyDeleted uid (regex_of_path (path ?f)) now]"
      have nq: "\<forall>w\<in>set ?w3. \<not> is_quota_write w"
        using s3_cleanup_all_kind by auto
      then have "users (run e ?w3 s) uid = None"
        using un by (simp only: users_run[OF nq])
      then have "snd (delete_folder_branch e s uid i now ?f) = ?w3"
        using Some by (simp add: delete_folder_branch_def Let_def)
      then show ?thesis using nq by (simp add: delete_handler_folder[OF 1 2 TFolder])
    qed
  qed
qed

text \<open>
  C9. In the writes of one delete request every write on the \<^verbatim>\<open>File\<close> collection comes
  strictly before the write of the quota counter. So at any point of interruption where
  a counter differs from the one before the request, the documents are already what the
  whole request leaves: the target is marked deleted, and under a folder so is every
  document of the cascade.
\<close>

theorem metadata_before_quota:
  assumes "ws = snd (delete_handler e s uid i now)"
  shows "(\<forall>j k. j < length ws \<and> k < length ws \<and> is_metadata_write (ws ! j) \<and>
                is_quota_write (ws ! k) \<longrightarrow> j < k) \<and>
         (\<forall>n. users (run e (take n ws) s) \<noteq> users s \<longrightarrow>
            files (run e (take n ws) s) = files (run e ws s) \<and>
            i < length (files s) \<and>
            isDeleted (files (run e (take n ws) s) ! i) \<and>
            (\<forall>m j. ftype (files s ! i) = TFolder \<and>
                   rx_compile e (regex_of_path (path (files s ! i))) = Some m \<and>
                   j < length (files s) \<and> under_regex m uid (files s ! j) \<longrightarrow>
               isDeleted (files (run e (take n ws) s) ! j)))"
proof -
  from delete_script_split[of e s uid i now] obtain ms rest where
    sp: "ws = ms @ rest" "\<forall>w\<in>set ms. \<not> is_quota_write w" "\<forall>w\<in>set rest. \<not> is_metadata_write w"
    unfolding assms by blast
  have order: "j < k"
    if "j < length ws" "k < length ws" "is_metadata_write (ws ! j)" "is_quota_write (ws ! k)" for j k
    using split_script_order[OF sp that] .
  have late: "files (run e (take n ws) s) = files (run e ws s) \<and>
            i < length (files s) \<and>
            isDeleted (files (run e (take n ws) s) ! i) \<and>
            (\<forall>m j. ftype (files s ! i) = TFolder \<and>
                   rx_compile e (regex_of_path (path (files s ! i))) = Some m \<and>
                   j < length (files s) \<and> under_regex m uid (files s ! j) \<longrightarrow>
               isDeleted (files (run e (take n ws) s) ! j))"
    if ch: "users (run e (take n ws) s) \<noteq> users s" for n
  proof -
    have same: "files (run e (take n ws) s) = files (run e ws s)"
      using split_script_prefix[OF sp ch] .
    have "\<not> (\<forall>w\<in>set ws. \<not> is_quota_write w)"
    proof
      assume "\<forall>w\<in>set ws. \<not> is_quota_write w"
      then have "\<forall>w\<in>set (take n ws). \<not> is_quota_write w" by (meson in_set_takeD)
      then have "users (run e (take n ws) s) = users s" by (rule users_run)
      with ch show False by simp
    qed
    with delete_no_quota_write[of i s uid e now]
    have ok: "i < length (files s)" "owner (files s ! i) = uid" "users s uid \<noteq> None"
      "ftype (files s ! i) = TFolder \<longrightarrow>
         rx_compile e (regex_of_path (path (files s ! i))) \<noteq> None"
      unfolding assms by blast+
    then obtain used where used: "users s uid = Some used" by blast
    have fin: "files (run e ws s) = files (snd (deleteEntry e s uid i now))"
      by (simp add: assms deleteEntry_def exec_def)
    show ?thesis
    proof (cases "ftype (files s ! i)")
      case TFile
      from deleteEntry_file(2)[OF ok(1,2) TFile used, of e now] ok(1)
      show ?thesis by (simp add: same fin TFile)
    next
      case TFolder
      with ok(4) obtain m where m: "rx_compile e (regex_of_path (path (files s ! i))) = Some m"
        by blast
      note F = deleteEntry_folder(2)[OF ok(1,2) TFolder used m, of now]
      have "isDeleted (files (run e (take n ws) s) ! j)"
        if "j < length (files s)" "j = i \<or> under_regex m uid (files s ! j)" for j
        unfolding same fin F using ok(1) that by (rule cascade_marks)
      then show ?thesis using same ok(1) m by auto
    qed
  qed
  from order late show ?thesis by blast
qed

theorem metadata_before_quota_witness:
  "snd (delete_handler plain_env docs_db 1 0 9) =
     [SaveFile 0 (mark_deleted 9 (mk_folder ''Docs'' ''/Docs'' None 1)),
      S3Delete ''k-report.pdf'',
      UpdateManyDeleted 1 ''^/Docs/'' 9,
      SaveUser 1 500] \<and>
   (2::nat) < 3 \<and>
   users (run plain_env (take 4 (snd (delete_handler plain_env docs_db 1 0 9))) docs_db) \<noteq>
     users docs_db \<and>
   isDeleted (files (run plain_env (take 4 (snd (delete_handler plain_env docs_db 1 0 9))) docs_db) ! 0) \<and>
   isDeleted (files (run plain_env (take 4 (snd (delete_handler plain_env docs_db 1 0 9))) docs_db) ! 1) \<and>
   users (run plain_env (take 3 (snd (delete_handler plain_env docs_db 1 0 9))) docs_db) 1 = Some 1500 \<and>
   isDeleted (files (run plain_env (take 3 (snd (delete_handler plain_env docs_db 1 0 9))) docs_db) ! 1)"
proof -
  let ?ws = "snd (delete_handler plain_env docs_db 1 0 9)"
  note T = metadata_before_quota
    [where ws = ?ws and e = plain_env and s = docs_db and uid = 1 and i = 0 and now = 9, OF refl]
  have len: "2 < length ?ws \<and> 3 < length ?ws \<and> is_metadata_write (?ws ! 2) \<and> is_quota_write (?ws ! 3)"
    unfolding docs_script by simp
  have o: "(2::nat) < 3"
    using T [THEN conjunct1, rule_format, OF len] .
  have ch: "users (run plain_env (take 4 ?ws) docs_db) \<noteq> users docs_db"
  proof
    assume "users (run plain_env (take 4 ?ws) docs_db) = users docs_db"
    then have "users (run plain_env (take 4 ?ws) docs_db) 1 = users docs_db 1" by simp
    then show False
      unfolding docs_script by (simp add: run_def apply_write_def docs_db_def example_defs)
  qed
  have rx: "ftype (files docs_db ! 0) = TFolder \<and>
      rx_compile plain_env (regex_of_path (path (files docs_db ! 0))) = Some (rx_atoms ''/Docs/'') \<and>
      1 < length (files docs_db) \<and> under_regex (rx_atoms ''/Docs/'') 1 (files docs_db ! 1)"
    by (simp add: docs_db_def example_defs regex_of_path_def under_regex_def)
  note L = T [THEN conjunct2, rule_format, OF ch]
  have d0: "isDeleted (files (run plain_env (take 4 ?ws) docs_db) ! 0)"
    using L by blast
  have d1: "isDeleted (files (run plain_env (take 4 ?ws) docs_db) ! 1)"
    using L [THEN conjunct2, THEN conjunct2, THEN conjunct2, rule_format, OF rx] .
  have p3: "users (run plain_env (take 3 ?ws) docs_db) 1 = Some 1500 \<and>
      isDeleted (files (run plain_env (take 3 ?ws) docs_db) ! 1)"
    unfolding docs_script
    by (simp add: run_def apply_write_def docs_db_def example_defs under_regex_def
        mark_deleted_def)
  from docs_script o ch d0 d1 p3 show ?thesis by blast
qed

subsection \<open>Plain paths\<close>

lemma rx_atoms_plain:
  "\<forall>c\<in>set q. c \<noteq> CHR ''.'' \<Longrightarrow> rx_atoms q t = prefix q t"
  by (induction q t rule: rx_atoms.induct) auto

lemma regex_lite_plain:
  assumes "\<forall>c\<in>set p. \<not> rx_special c"
  shows "regex_lite (regex_of_path p) = Some (prefix (p @ ''/''))"
proof -
  have dot: "rx_special CHR ''.''" and sl: "\<not> rx_special CHR ''/''"
    by (simp_all add: rx_special_def)
  from assms dot have nd: "\<forall>c\<in>set (p @ ''/''). c \<noteq> CHR ''.''" by auto
  from assms sl have ns: "\<forall>c\<in>set (p @ ''/''). c = CHR ''.'' \<or> \<not> rx_special c" by auto
  have "rx_atoms (p @ ''/'') = prefix (p @ ''/'')"
    using rx_atoms_plain[OF nd] by blast
  with ns show ?thesis by (simp add: regex_lite_def regex_of_path_def)
qed

subsection \<open>The cascade under a path that the engine reads literally\<close>

text \<open>
  When the store reads \<^verbatim>\<open>^<path>/\<close> as the literal prefix (as it does for a path without
  special characters), deleting a folder marks exactly the target and the non-deleted
  documents of the requester whose path starts with the folder's path and a slash; every
  other document is left as it was.
\<close>

lemma folder_delete_exact:
  assumes "i < length (files s)" and "owner (files s ! i) = uid" and "ftype (files s ! i) = TFolder"
    and "users s uid = Some used"
    and "rx_compile e (regex_of_path (path (files s ! i))) = Some (prefix (path (files s ! i) @ ''/''))"
    and "j < length (files s)"
  shows "files (snd (deleteEntry e s uid i now)) ! j =
           (if j = i \<or>
               owner (files s ! j) = uid \<and> prefix (path (files s ! i) @ ''/'') (path (files s ! j)) \<and>
               \<not> isDeleted (files s ! j)
            then mark_deleted now (files s ! j) else files s ! j)"
  unfolding deleteEntry_folder(2)[OF assms(1-5)]
  using assms(1,6) by (cases "j = i") (simp_all add: under_regex_def)

lemma folder_delete_exact_plain:
  assumes "rx_compile e = regex_lite" and "\<forall>c\<in>set (path (files s ! i)). \<not> rx_special c"
    and "i < length (files s)" and "owner (files s ! i) = uid" and "ftype (files s ! i) = TFolder"
    and "users s uid = Some used" and "j < length (files s)"
  shows "files (snd (deleteEntry e s uid i now)) ! j =
           (if j = i \<or>
               owner (files s ! j) = uid \<and> prefix (path (files s ! i) @ ''/'') (path (files s ! j)) \<and>
               \<not> isDeleted (files s ! j)
            then mark_deleted now (files s ! j) else files s ! j)"
  using folder_delete_exact[OF assms(3-6) _ assms(7)] regex_lite_plain[OF assms(2)] assms(1)
  by simp

text \<open>
  C3 fails on the code where the folder's path holds a character the regular expression
  reads specially: deleting \<open>/a.b\<close> also deletes \<open>/aXb/f\<close>, whose path does not start with
  \<open>/a.b/\<close>.
\<close>

theorem dotted_folder_delete_overreaches:
  "\<not> prefix ''/a.b/'' (path (files dotted_db ! 2)) \<and>
   \<not> isDeleted (files dotted_db ! 2) \<and>
   fst (deleteEntry plain_env dotted_db 1 0 9) = Deleted 0 \<and>
   isDeleted (files (snd (deleteEntry plain_env dotted_db 1 0 9)) ! 2)"
  by (simp add: handler_defs example_defs dotted_db_def)

subsection \<open>S3 failures and the bytes released\<close>

lemma filter_update_irrelevant:
  "i < length xs \<Longrightarrow> \<not> P (xs ! i) \<Longrightarrow> \<not> P y \<Longrightarrow> filter P (xs[i := y]) = filter P xs"
  by (induction xs arbitrary: i) (auto split: nat.splits)

lemma not_prefix_slash: "\<not> prefix (p @ ''/'') p"
  by (auto dest: prefix_length_le)

lemma folder_scope_sum:
  assumes "i < length (files s)"
  shows "sum_list (map fsize (filter (under_regex (prefix (path (files s ! i) @ ''/'')) uid)
             ((files s)[i := mark_deleted now (files s ! i)]))) =
         sum_list (map fsize (filter (\<lambda>d. owner d = uid \<and>
             prefix (path (files s ! i) @ ''/'') (path d) \<and> \<not> isDeleted d) (files s)))"
proof -
  have eq: "under_regex (prefix (path (files s ! i) @ ''/'')) uid =
      (\<lambda>d. owner d = uid \<and> prefix (path (files s ! i) @ ''/'') (path d) \<and> \<not> isDeleted d)"
    by (simp add: under_regex_def fun_eq_iff)
  have "filter (under_regex (prefix (path (files s ! i) @ ''/'')) uid)
          ((files s)[i := mark_deleted now (files s ! i)]) =
        filter (under_regex (prefix (path (files s ! i) @ ''/'')) uid) (files s)"
    using assms by (intro filter_update_irrelevant) (simp_all add: under_regex_def not_prefix_slash)
  then show ?thesis unfolding eq by simp
qed

lemma folders_sum_files:
  assumes "\<forall>f\<in>set xs. ftype f = TFolder \<longrightarrow> fsize f = 0"
  shows "sum_list (map fsize (filter Q xs)) =
         sum_list (map fsize (filter (\<lambda>d. ftype d = TFile \<and> Q d) xs))"
  using assms
proof (induction xs)
  case Nil
  then show ?case by simp
next
  case (Cons a xs)
  then show ?case by (cases "ftype a") simp_all
qed

lemma delete_folder_literal:
  fixes now :: nat and g :: "string \<Rightarrow> bool"
  assumes "i < length (files s)" and "owner (files s ! i) = uid" and "ftype (files s ! i) = TFolder"
    and "users s uid = Some used"
    and "rx_compile e (regex_of_path (path (files s ! i))) = Some (prefix (path (files s ! i) @ ''/''))"
  defines "scope \<equiv> \<lambda>d. owner d = uid \<and> prefix (path (files s ! i) @ ''/'') (path d) \<and> \<not> isDeleted d"
  defines "tot \<equiv> sum_list (map fsize (filter scope (files s)))"
  defines "u \<equiv> (if tot > 0 then max 0 (used - int tot) else used)"
  defines "r \<equiv> deleteEntry (e\<lparr>s3_delete_fails := g\<rparr>) s uid i now"
  shows "fst r = Deleted u"
    and "users (snd r) uid = Some u"
    and "int tot \<le> used \<longrightarrow> u = used - int tot"
    and "length (files (snd r)) = length (files s)"
    and "\<forall>j<length (files s). files (snd r) ! j =
           (if j = i \<or> scope (files s ! j) then mark_deleted now (files s ! j) else files s ! j)"
    and "folders_empty s \<longrightarrow>
           tot = sum_list (map fsize (filter (\<lambda>d. ftype d = TFile \<and> scope d) (files s)))"
proof -
  let ?e = "e\<lparr>s3_delete_fails := g\<rparr>"
  have 5: "rx_compile ?e (regex_of_path (path (files s ! i))) =
      Some (prefix (path (files s ! i) @ ''/''))"
    using assms(5) by simp
  note F = deleteEntry_folder[OF assms(1-4) 5, of now]
  have t: "sum_list (map fsize (filter (under_regex (prefix (path (files s ! i) @ ''/'')) uid)
             ((files s)[i := mark_deleted now (files s ! i)]))) = tot"
    unfolding tot_def scope_def by (rule folder_scope_sum[OF assms(1)])
  show "fst r = Deleted u" using F(1) unfolding t r_def u_def .
  show "users (snd r) uid = Some u" using F(3) unfolding t r_def u_def .
  show "int tot \<le> used \<longrightarrow> u = used - int tot" by (simp add: u_def)
  show "length (files (snd r)) = length (files s)" unfolding r_def F(2) by simp
  show "\<forall>j<length (files s). files (snd r) ! j =
           (if j = i \<or> scope (files s ! j) then mark_deleted now (files s ! j) else files s ! j)"
    unfolding r_def scope_def
    using folder_delete_exact[OF assms(1-4) 5, of _ now] by blast
  show "folders_empty s \<longrightarrow>
           tot = sum_list (map fsize (filter (\<lambda>d. ftype d = TFile \<and> scope d) (files s)))"
    unfolding tot_def folders_empty_def by (intro impI folders_sum_files)
qed

text \<open>
  C8, as the operation has it. Whatever calls of \<^verbatim>\<open>deleteFileFromS3\<close> fail, a delete
  request issues the same writes, gives the same response and leaves the same documents
  and the same counters as when none fails. For a target that is a file of the requester,
  the response is the success response, exactly the target is marked deleted, and the
  counter stored and reported is the old one less the size of the file, floored at 0:
  the old one less the size whenever the counter is at least the size. For a target that
  is a folder of the requester whose pattern \<^verbatim>\<open>^<path>/\<close> the store reads as the literal
  prefix, the response is the success response, exactly the target and the non-deleted
  documents of the requester whose path starts with the folder's path and a slash are
  marked deleted, and the counter stored and reported is the old one less the sum of the
  sizes of those documents, floored at 0: the old one less that sum whenever the counter
  is at least the sum. Where folders have size 0, that sum is the sum of the sizes of the
  files among those documents.
\<close>

theorem blob_failures_suppressed:
  "delete_handler (e\<lparr>s3_delete_fails := g\<rparr>) s uid i now = delete_handler e s uid i now \<and>
   fst (deleteEntry (e\<lparr>s3_delete_fails := g\<rparr>) s uid i now) = fst (deleteEntry e s uid i now) \<and>
   files (snd (deleteEntry (e\<lparr>s3_delete_fails := g\<rparr>) s uid i now)) =
     files (snd (deleteEntry e s uid i now)) \<and>
   users (snd (deleteEntry (e\<lparr>s3_delete_fails := g\<rparr>) s uid i now)) =
     users (snd (deleteEntry e s uid i now)) \<and>
   (i < length (files s) \<and> owner (files s ! i) = uid \<and> ftype (files s ! i) = TFile \<and>
    users s uid = Some used \<longrightarrow>
      (let r = deleteEntry (e\<lparr>s3_delete_fails := g\<rparr>) s uid i now;
           u = max 0 (used - int (fsize (files s ! i)))
       in fst r = Deleted u \<and>
          files (snd r) = (files s)[i := mark_deleted now (files s ! i)] \<and>
          users (snd r) = (users s)(uid \<mapsto> u) \<and>
          (int (fsize (files s ! i)) \<le> used \<longrightarrow> u = used - int (fsize (files s ! i))))) \<and>
   (i < length (files s) \<and> owner (files s ! i) = uid \<and> ftype (files s ! i) = TFolder \<and>
    users s uid = Some used \<and>
    rx_compile e (regex_of_path (path (files s ! i))) =
      Some (prefix (path (files s ! i) @ ''/'')) \<longrightarrow>
      (let scope = (\<lambda>d. owner d = uid \<and> prefix (path (files s ! i) @ ''/'') (path d) \<and>
                        \<not> isDeleted d);
           tot = sum_list (map fsize (filter scope (files s)));
           u = (if tot > 0 then max 0 (used - int tot) else used);
           r = deleteEntry (e\<lparr>s3_delete_fails := g\<rparr>) s uid i now
       in fst r = Deleted u \<and> users (snd r) uid = Some u \<and>
          (int tot \<le> used \<longrightarrow> u = used - int tot) \<and>
          length (files (snd r)) = length (files s) \<and>
          (\<forall>j<length (files s). files (snd r) ! j =
             (if j = i \<or> scope (files s ! j) then mark_deleted now (files s ! j)
              else files s ! j)) \<and>
          (folders_empty s \<longrightarrow>
             tot = sum_list (map fsize (filter (\<lambda>d. ftype d = TFile \<and> scope d) (files s))))))"
proof -
  let ?e = "e\<lparr>s3_delete_fails := g\<rparr>"
  have h: "delete_handler ?e s uid i now = delete_handler e s uid i now"
    by (rule delete_handler_ignores_s3)
  have a: "fst (deleteEntry ?e s uid i now) = fst (deleteEntry e s uid i now)"
    by (simp add: deleteEntry_def exec_def h)
  have b: "files (snd (deleteEntry ?e s uid i now)) = files (snd (deleteEntry e s uid i now))"
    by (simp add: deleteEntry_def exec_def h run_docs)
  have c: "users (snd (deleteEntry ?e s uid i now)) = users (snd (deleteEntry e s uid i now))"
    by (simp add: deleteEntry_def exec_def h run_docs)
  have d: "let r = deleteEntry ?e s uid i now;
           u = max 0 (used - int (fsize (files s ! i)))
       in fst r = Deleted u \<and>
          files (snd r) = (files s)[i := mark_deleted now (files s ! i)] \<and>
          users (snd r) = (users s)(uid \<mapsto> u) \<and>
          (int (fsize (files s ! i)) \<le> used \<longrightarrow> u = used - int (fsize (files s ! i)))"
    if "i < length (files s) \<and> owner (files s ! i) = uid \<and> ftype (files s ! i) = TFile \<and>
        users s uid = Some used"
  proof -
    from that have 1: "i < length (files s)" and 2: "owner (files s ! i) = uid"
      and 3: "ftype (files s ! i) = TFile" and 4: "users s uid = Some used" by simp_all
    note F = deleteEntry_file[OF 1 2 3 4, of ?e now]
    show ?thesis unfolding Let_def using F by simp
  qed
  have f: "let scope = (\<lambda>d. owner d = uid \<and> prefix (path (files s ! i) @ ''/'') (path d) \<and>
                        \<not> isDeleted d);
           tot = sum_list (map fsize (filter scope (files s)));
           u = (if tot > 0 then max 0 (used - int tot) else used);
           r = deleteEntry ?e s uid i now
       in fst r = Deleted u \<and> users (snd r) uid = Some u \<and>
          (int tot \<le> used \<longrightarrow> u = used - int tot) \<and>
          length (files (snd r)) = length (files s) \<and>
          (\<forall>j<length (files s). files (snd r) ! j =
             (if j = i \<or> scope (files s ! j) then mark_deleted now (files s ! j)
              else files s ! j)) \<and>
          (folders_empty s \<longrightarrow>
             tot = sum_list (map fsize (filter (\<lambda>d. ftype d = TFile \<and> scope d) (files s))))"
    if "i < length (files s) \<and> owner (files s ! i) = uid \<and> ftype (files s ! i) = TFolder \<and>
        users s uid = Some used \<and>
        rx_compile e (regex_of_path (path (files s ! i))) =
          Some (prefix (path (files s ! i) @ ''/''))"
  proof -
    from that have 1: "i < length (files s)" and 2: "owner (files s ! i) = uid"
      and 3: "ftype (files s ! i) = TFolder" and 4: "users s uid = Some used"
      and 5: "rx_compile e (regex_of_path (path (files s ! i))) =
          Some (prefix (path (files s ! i) @ ''/''))" by simp_all
    note L = delete_folder_literal[OF 1 2 3 4 5]
    show ?thesis unfolding Let_def by (intro conjI L)
  qed
  from h a b c d f show ?thesis by blast
qed

text \<open>
  C8 as stated fails where the counter is below the bytes in scope, and where the
  folder's path holds a character the regular expression reads specially. With every S3
  delete failing: deleting the file \<open>/b\<close> of a hundred bytes from the store whose counter
  has drifted to 0 leaves the counter at 0; and deleting the folder \<open>/a.b\<close>, under which
  no document lies, lowers the counter from 5 to 0.
\<close>

theorem release_not_full_counterexample:
  "\<not> isDeleted (files a_deleted_twice ! 1) \<and> ftype (files a_deleted_twice ! 1) = TFile \<and>
   fsize (files a_deleted_twice ! 1) = 100 \<and>
   users a_deleted_twice 1 = Some 0 \<and>
   s3_delete_fails failing_s3_env ''k-b'' \<and>
   fst (deleteEntry failing_s3_env a_deleted_twice 1 1 9) = Deleted 0 \<and>
   isDeleted (files (snd (deleteEntry failing_s3_env a_deleted_twice 1 1 9)) ! 1) \<and>
   users (snd (deleteEntry failing_s3_env a_deleted_twice 1 1 9)) 1 = Some 0 \<and>
   filter (\<lambda>d. prefix ''/a.b/'' (path d)) (files dotted_db) = [] \<and>
   users dotted_db 1 = Some 5 \<and>
   s3_delete_fails failing_s3_env ''k-f'' \<and>
   fst (deleteEntry failing_s3_env dotted_db 1 0 9) = Deleted 0 \<and>
   users (snd (deleteEntry failing_s3_env dotted_db 1 0 9)) 1 = Some 0"
  by (simp add: handler_defs example_defs failing_s3_env_def a_deleted_twice_def dotted_db_def)

theorem blob_failures_suppressed_witness:
  "s3_delete_fails failing_s3_env ''k-report.pdf'' \<and>
   fst (deleteEntry failing_s3_env docs_db 1 0 9) = Deleted 500 \<and>
   users (snd (deleteEntry failing_s3_env docs_db 1 0 9)) 1 = Some 500 \<and>
   files (snd (deleteEntry failing_s3_env docs_db 1 0 9)) =
     [mark_deleted 9 (mk_folder ''Docs'' ''/Docs'' None 1),
      mark_deleted 9 (mk_file ''report.pdf'' ''/Docs/report.pdf'' 1000 (Some 0) 1),
      mk_file ''notes.txt'' ''/notes.txt'' 500 None 1] \<and>
   bucket (snd (deleteEntry failing_s3_env docs_db 1 0 9)) = [''k-report.pdf'', ''k-notes.txt''] \<and>
   sum_list (map fsize (filter (\<lambda>d. ftype d = TFile \<and> owner d = 1 \<and>
       prefix ''/Docs/'' (path d) \<and> \<not> isDeleted d) (files docs_db))) = 1000 \<and>
   s3_delete_fails failing_s3_env ''k-notes.txt'' \<and>
   fst (deleteEntry failing_s3_env docs_db 1 2 9) = Deleted 1000 \<and>
   users (snd (deleteEntry failing_s3_env docs_db 1 2 9)) 1 = Some 1000 \<and>
   files (snd (deleteEntry failing_s3_env docs_db 1 2 9)) =
     [mk_folder ''Docs'' ''/Docs'' None 1,
      mk_file ''report.pdf'' ''/Docs/report.pdf'' 1000 (Some 0) 1,
      mark_deleted 9 (mk_file ''notes.txt'' ''/notes.txt'' 500 None 1)]"
proof -
  note T = blob_failures_suppressed
    [where e = plain_env and g = "\<lambda>k. True" and s = docs_db and uid = 1 and i = 0 and now = 9
       and used = 1500]
  note U = blob_failures_suppressed
    [where e = plain_env and g = "\<lambda>k. True" and s = docs_db and uid = 1 and i = 2 and now = 9
       and used = 1500]
  have e: "plain_env\<lparr>s3_delete_fails := \<lambda>k. True\<rparr> = failing_s3_env"
    by (simp add: failing_s3_env_def)
  have p: "path (files docs_db ! 0) = ''/Docs''"
    by (simp add: docs_db_def mk_folder_def)
  have rx: "rx_compile plain_env (regex_of_path ''/Docs'') = Some (prefix (''/Docs'' @ ''/''))"
    using regex_lite_plain[of "''/Docs''"] by (simp add: plain_env_def rx_special_def)
  have h: "0 < length (files docs_db) \<and> owner (files docs_db ! 0) = 1 \<and>
      ftype (files docs_db ! 0) = TFolder \<and> users docs_db 1 = Some 1500 \<and>
      rx_compile plain_env (regex_of_path (path (files docs_db ! 0))) =
        Some (prefix (path (files docs_db ! 0) @ ''/''))"
    unfolding p using rx by (simp add: docs_db_def mk_folder_def)
  have k: "2 < length (files docs_db) \<and> owner (files docs_db ! 2) = 1 \<and>
      ftype (files docs_db ! 2) = TFile \<and> users docs_db 1 = Some 1500"
    by (simp add: docs_db_def mk_file_def)
  have tot: "sum_list (map fsize (filter (\<lambda>d. owner d = 1 \<and> prefix (''/Docs'' @ ''/'') (path d) \<and>
                 \<not> isDeleted d) (files docs_db))) = 1000"
    by (simp add: docs_db_def mk_file_def mk_folder_def)
  have fe: "folders_empty docs_db"
    by (simp add: folders_empty_def docs_db_def mk_file_def mk_folder_def)
  note TF = T [THEN conjunct2, THEN conjunct2, THEN conjunct2, THEN conjunct2, THEN conjunct2,
      rule_format, OF h, unfolded Let_def e p tot]
  have r: "fst (deleteEntry failing_s3_env docs_db 1 0 9) = Deleted 500 \<and>
      users (snd (deleteEntry failing_s3_env docs_db 1 0 9)) 1 = Some 500"
    using TF by simp
  have t: "sum_list (map fsize (filter (\<lambda>d. ftype d = TFile \<and> owner d = 1 \<and>
       prefix ''/Docs/'' (path d) \<and> \<not> isDeleted d) (files docs_db))) = 1000"
    using TF fe by simp
  have f: "files (snd (deleteEntry failing_s3_env docs_db 1 0 9)) =
      files (snd (deleteEntry plain_env docs_db 1 0 9))"
    using T [THEN conjunct2, THEN conjunct2, THEN conjunct1] unfolding e .
  have b: "bucket (snd (deleteEntry failing_s3_env docs_db 1 0 9)) = [''k-report.pdf'', ''k-notes.txt'']"
    unfolding deleteEntry_def exec_def T [THEN conjunct1, unfolded e] docs_script
    by (simp add: run_def apply_write_def failing_s3_env_def docs_db_def example_defs)
  have s: "s3_delete_fails failing_s3_env ''k-report.pdf''" "s3_delete_fails failing_s3_env ''k-notes.txt''"
    by (simp_all add: failing_s3_env_def)
  note UF = U [THEN conjunct2, THEN conjunct2, THEN conjunct2, THEN conjunct2, THEN conjunct1,
      rule_format, OF k, unfolded Let_def e]
  have v: "fst (deleteEntry failing_s3_env docs_db 1 2 9) = Deleted 1000 \<and>
      users (snd (deleteEntry failing_s3_env docs_db 1 2 9)) 1 = Some 1000 \<and>
      files (snd (deleteEntry failing_s3_env docs_db 1 2 9)) =
        [mk_folder ''Docs'' ''/Docs'' None 1,
         mk_file ''report.pdf'' ''/Docs/report.pdf'' 1000 (Some 0) 1,
         mark_deleted 9 (mk_file ''notes.txt'' ''/notes.txt'' 500 None 1)]"
    using UF by (simp add: docs_db_def mk_file_def)
  from r t f b s v docs_delete_plain show ?thesis by simp
qed

subsection \<open>The counter and the live bytes\<close>

lemma live_bytes_weight: "live_bytes s uid = int (sum_list (map (live_weight uid) (files s)))"
  unfolding live_bytes_def live_weight_def by (simp add: sum_list_map_filter')

lemma sum_list_map_update:
  fixes w :: "'a \<Rightarrow> nat"
  shows "i < length xs \<Longrightarrow> sum_list (map w (xs[i := y])) + w (xs ! i) = sum_list (map w xs) + w y"
  by (induction xs arbitrary: i) (auto split: nat.splits)

lemma sum_list_cascade:
  fixes w k :: "'a \<Rightarrow> nat"
  assumes "\<forall>d\<in>set xs. w d = (if P d then k d else 0) + w (g d)"
  shows "sum_list (map w xs) = sum_list (map k (filter P xs)) + sum_list (map w (map g xs))"
  using assms by (induction xs) auto

lemma sum_list_map_nth_eq:
  fixes w :: "'a \<Rightarrow> nat"
  assumes "length xs = length ys" and "\<forall>j<length xs. w (xs ! j) = w (ys ! j)"
  shows "sum_list (map w xs) = sum_list (map w ys)"
proof -
  have "map w xs = map w ys"
    using assms by (intro nth_equalityI) simp_all
  then show ?thesis by simp
qed

lemma live_weight_mark [simp]: "live_weight uid (mark_deleted now f) = 0"
  by (simp add: live_weight_def)

lemma live_weight_other: "owner f \<noteq> uid \<Longrightarrow> live_weight uid f = 0"
  by (simp add: live_weight_def)

lemma live_weight_folder: "ftype f = TFolder \<Longrightarrow> live_weight uid f = 0"
  by (simp add: live_weight_def)

subsection \<open>The state a delete request leaves, branch by branch\<close>

lemma files_run_delete_scripts:
  assumes "i < length (files s)"
  shows "files (run e [SaveFile i f] s) = (files s)[i := f]"
    and "files (run e ([SaveFile i f] @ (SaveUser v u # s3_cleanup f)) s) = (files s)[i := f]"
    and "files (run e (SaveFile i f # concat (map s3_cleanup cs) @ [UpdateManyDeleted v pat now]) s) =
           (case rx_compile e pat of
              None \<Rightarrow> (files s)[i := f]
            | Some m \<Rightarrow> map (\<lambda>d. if under_regex m v d then mark_deleted now d else d) ((files s)[i := f]))"
    and "files (run e ((SaveFile i f # concat (map s3_cleanup cs) @ [UpdateManyDeleted v pat now]) @
                       [SaveUser v u]) s) =
           (case rx_compile e pat of
              None \<Rightarrow> (files s)[i := f]
            | Some m \<Rightarrow> map (\<lambda>d. if under_regex m v d then mark_deleted now d else d) ((files s)[i := f]))"
proof -
  show 1: "files (run e [SaveFile i f] s) = (files s)[i := f]"
    using assms by (simp add: run_SaveFile)
  show "files (run e ([SaveFile i f] @ (SaveUser v u # s3_cleanup f)) s) = (files s)[i := f]"
    unfolding run_append run_Cons using assms
    by (simp add: files_run_cleanup1 run_Nil apply_write_def)
  have um: "files (run e [UpdateManyDeleted v pat now] t) =
      (case rx_compile e pat of
         None \<Rightarrow> files t
       | Some m \<Rightarrow> map (\<lambda>d. if under_regex m v d then mark_deleted now d else d) (files t))" for t
    by (simp add: run_def apply_write_def split: option.splits)
  have w3: "SaveFile i f # concat (map s3_cleanup cs) @ [UpdateManyDeleted v pat now] =
      [SaveFile i f] @ concat (map s3_cleanup cs) @ [UpdateManyDeleted v pat now]"
    by simp
  show 3: "files (run e (SaveFile i f # concat (map s3_cleanup cs) @ [UpdateManyDeleted v pat now]) s) =
           (case rx_compile e pat of
              None \<Rightarrow> (files s)[i := f]
            | Some m \<Rightarrow> map (\<lambda>d. if under_regex m v d then mark_deleted now d else d) ((files s)[i := f]))"
    unfolding w3 run_append um using assms
    by (simp add: files_run_cleanup run_SaveFile split: option.splits)
  show "files (run e ((SaveFile i f # concat (map s3_cleanup cs) @ [UpdateManyDeleted v pat now]) @
                       [SaveUser v u]) s) =
           (case rx_compile e pat of
              None \<Rightarrow> (files s)[i := f]
            | Some m \<Rightarrow> map (\<lambda>d. if under_regex m v d then mark_deleted now d else d) ((files s)[i := f]))"
    unfolding run_append[of e _ "[SaveUser v u]"] run_SaveUser using 3 by simp
qed

lemma users_run_delete_scripts:
  shows "users (run e [SaveFile i f] s) = users s"
    and "users (run e ([SaveFile i f] @ (SaveUser v u # s3_cleanup f)) s) = (users s)(v \<mapsto> u)"
    and "users (run e (SaveFile i f # concat (map s3_cleanup cs) @ [UpdateManyDeleted v pat now]) s) =
           users s"
    and "users (run e ((SaveFile i f # concat (map s3_cleanup cs) @ [UpdateManyDeleted v pat now]) @
                       [SaveUser v u]) s) = (users s)(v \<mapsto> u)"
proof -
  show "users (run e [SaveFile i f] s) = users s"
    by (intro users_run) simp
  have a: "users (run e [SaveFile i f] t) = users t" for t
    by (intro users_run) simp
  show "users (run e ([SaveFile i f] @ (SaveUser v u # s3_cleanup f)) s) = (users s)(v \<mapsto> u)"
    unfolding run_append run_Cons
    by (simp add: users_run_cleanup1 run_Nil apply_write_def)
  have nq: "\<forall>w\<in>set (SaveFile i f # concat (map s3_cleanup cs) @ [UpdateManyDeleted v pat now]).
      \<not> is_quota_write w"
    using s3_cleanup_all_kind by auto
  show 3: "users (run e (SaveFile i f # concat (map s3_cleanup cs) @ [UpdateManyDeleted v pat now]) s) =
           users s"
    using nq by (rule users_run)
  show "users (run e ((SaveFile i f # concat (map s3_cleanup cs) @ [UpdateManyDeleted v pat now]) @
                       [SaveUser v u]) s) = (users s)(v \<mapsto> u)"
    unfolding run_append[of e _ "[SaveUser v u]"] run_SaveUser using 3 by simp
qed

text \<open>
  Whatever its branch, a delete by user \<open>v\<close> changes documents only by marking documents
  of \<open>v\<close> deleted, and changes no counter but that of \<open>v\<close>.
\<close>

lemma cascade_entrywise:
  assumes "i < length xs" and "owner (xs ! i) = v" and "j < length xs"
  shows "(case r of
            None \<Rightarrow> xs[i := mark_deleted now (xs ! i)]
          | Some m \<Rightarrow> map (\<lambda>d. if under_regex m v d then mark_deleted now d else d)
                       (xs[i := mark_deleted now (xs ! i)])) ! j = xs ! j \<or>
         owner (xs ! j) = v \<and>
         (case r of
            None \<Rightarrow> xs[i := mark_deleted now (xs ! i)]
          | Some m \<Rightarrow> map (\<lambda>d. if under_regex m v d then mark_deleted now d else d)
                       (xs[i := mark_deleted now (xs ! i)])) ! j = mark_deleted now (xs ! j)"
  using assms by (cases r; cases "j = i") (auto simp: under_regex_def)

lemma deleteEntry_coarse:
  "length (files (snd (deleteEntry e s v i now))) = length (files s) \<and>
   (\<forall>j<length (files s).
      files (snd (deleteEntry e s v i now)) ! j = files s ! j \<or>
      owner (files s ! j) = v \<and>
      files (snd (deleteEntry e s v i now)) ! j = mark_deleted now (files s ! j)) \<and>
   (users (snd (deleteEntry e s v i now)) = users s \<or>
    (\<exists>u. users (snd (deleteEntry e s v i now)) = (users s)(v \<mapsto> u)))"
proof (cases "i < length (files s) \<and> owner (files s ! i) = v")
  case False
  then have "delete_handler e s v i now = (NotFound, []) \<or> delete_handler e s v i now = (Forbidden, [])"
    by (auto simp: delete_handler_def findById_def)
  then show ?thesis by (auto simp: deleteEntry_def exec_def run_Nil)
next
  case True
  then have 1: "i < length (files s)" and 2: "owner (files s ! i) = v" by simp_all
  let ?f = "mark_deleted now (files s ! i)"
  let ?s' = "snd (deleteEntry e s v i now)"
  have s': "?s' = run e (snd (delete_handler e s v i now)) s"
    by (simp add: deleteEntry_def exec_def)
  have "\<exists>r. files ?s' = (case r of
            None \<Rightarrow> (files s)[i := ?f]
          | Some m \<Rightarrow> map (\<lambda>d. if under_regex m v d then mark_deleted now d else d) ((files s)[i := ?f])) \<and>
        (users ?s' = users s \<or> (\<exists>u. users ?s' = (users s)(v \<mapsto> u)))"
  proof (cases "ftype (files s ! i)")
    case TFile
    let ?ws = "snd (delete_file_branch e s v i ?f)"
    have s'': "?s' = run e ?ws s"
      unfolding s' delete_handler_file[OF 1 2 TFile] ..
    from file_branch_script[of e s v i ?f]
    consider "?ws = [SaveFile i ?f]"
      | u where "?ws = [SaveFile i ?f] @ (SaveUser v u # s3_cleanup ?f)"
      by blast
    then show ?thesis
    proof cases
      case 1
      show ?thesis
        by (rule exI[of _ None])
          (simp add: s'' 1 files_run_delete_scripts(1)[OF \<open>i < length (files s)\<close>]
            users_run_delete_scripts(1))
    next
      case (2 u)
      show ?thesis
        by (rule exI[of _ None])
          (simp only: s'' 2 files_run_delete_scripts(2)[OF \<open>i < length (files s)\<close>]
            users_run_delete_scripts(2), simp, blast)
    qed
  next
    case TFolder
    let ?ws = "snd (delete_folder_branch e s v i now ?f)"
    let ?pat = "regex_of_path (path ?f)"
    have s'': "?s' = run e ?ws s"
      unfolding s' delete_handler_folder[OF 1 2 TFolder] ..
    from folder_branch_script[of e s v i now ?f]
    consider "?ws = [SaveFile i ?f]"
      | cs where "?ws = SaveFile i ?f # concat (map s3_cleanup cs) @ [UpdateManyDeleted v ?pat now]"
      | cs u where "?ws = (SaveFile i ?f # concat (map s3_cleanup cs) @
                            [UpdateManyDeleted v ?pat now]) @ [SaveUser v u]"
      by blast
    then show ?thesis
    proof cases
      case 1
      show ?thesis
        by (rule exI[of _ None])
          (simp add: s'' 1 files_run_delete_scripts(1)[OF \<open>i < length (files s)\<close>]
            users_run_delete_scripts(1))
    next
      case (2 cs)
      show ?thesis
        by (rule exI[of _ "rx_compile e ?pat"])
          (simp only: s'' 2 files_run_delete_scripts(3)[OF \<open>i < length (files s)\<close>]
            users_run_delete_scripts(3), simp)
    next
      case (3 cs u)
      show ?thesis
        by (rule exI[of _ "rx_compile e ?pat"])
          (simp only: s'' 3 files_run_delete_scripts(4)[OF \<open>i < length (files s)\<close>]
            users_run_delete_scripts(4), simp, blast)
    qed
  qed
  then obtain r where
    fs: "files ?s' = (case r of
            None \<Rightarrow> (files s)[i := ?f]
          | Some m \<Rightarrow> map (\<lambda>d. if under_regex m v d then mark_deleted now d else d) ((files s)[i := ?f]))"
    and us: "users ?s' = users s \<or> (\<exists>u. users ?s' = (users s)(v \<mapsto> u))"
    by blast
  have len: "length (files ?s') = length (files s)"
    unfolding fs by (cases r) simp_all
  have "files ?s' ! j = files s ! j \<or> owner (files s ! j) = v \<and> files ?s' ! j = mark_deleted now (files s ! j)"
    if "j < length (files s)" for j
    unfolding fs using cascade_entrywise[OF 1 2 that] .
  with len us show ?thesis by blast
qed

subsection \<open>Requests keep the counter of a user equal to the live bytes\<close>

lemma folders_empty_nth:
  "folders_empty s \<longleftrightarrow> (\<forall>j<length (files s). ftype (files s ! j) = TFolder \<longrightarrow> fsize (files s ! j) = 0)"
  unfolding folders_empty_def by (metis in_set_conv_nth)

lemma delete_keeps_folders_empty:
  assumes "folders_empty s"
  shows "folders_empty (snd (deleteEntry e s v i now))"
proof -
  let ?s' = "snd (deleteEntry e s v i now)"
  from deleteEntry_coarse[of e s v i now]
  have len: "length (files ?s') = length (files s)"
    and ent: "\<forall>j<length (files s). files ?s' ! j = files s ! j \<or>
               files ?s' ! j = mark_deleted now (files s ! j)"
    by blast+
  have "fsize (files ?s' ! j) = 0" if "j < length (files ?s')" "ftype (files ?s' ! j) = TFolder" for j
  proof -
    from that(1) len have j: "j < length (files s)" by simp
    with ent have "ftype (files ?s' ! j) = ftype (files s ! j) \<and> fsize (files ?s' ! j) = fsize (files s ! j)"
      by (metis mark_deleted_keeps(2,4))
    with that(2) assms j show ?thesis by (simp add: folders_empty_nth)
  qed
  then show ?thesis by (simp add: folders_empty_nth)
qed

lemma delete_other_user:
  assumes "v \<noteq> uid"
  shows "users (snd (deleteEntry e s v i now)) uid = users s uid"
    and "live_bytes (snd (deleteEntry e s v i now)) uid = live_bytes s uid"
proof -
  let ?s' = "snd (deleteEntry e s v i now)"
  from deleteEntry_coarse[of e s v i now]
  have len: "length (files ?s') = length (files s)"
    and ent: "\<forall>j<length (files s). files ?s' ! j = files s ! j \<or>
               owner (files s ! j) = v \<and> files ?s' ! j = mark_deleted now (files s ! j)"
    and us: "users ?s' = users s \<or> (\<exists>u. users ?s' = (users s)(v \<mapsto> u))"
    by blast+
  from us assms show "users ?s' uid = users s uid" by auto
  have "live_weight uid (files ?s' ! j) = live_weight uid (files s ! j)" if "j < length (files ?s')" for j
  proof -
    from that len have "j < length (files s)" by simp
    with ent consider "files ?s' ! j = files s ! j"
      | "owner (files s ! j) = v" "files ?s' ! j = mark_deleted now (files s ! j)" by blast
    then show ?thesis
      using assms by cases (simp_all add: live_weight_other)
  qed
  with len have "sum_list (map (live_weight uid) (files ?s')) = sum_list (map (live_weight uid) (files s))"
    by (intro sum_list_map_nth_eq) simp_all
  then show "live_bytes ?s' uid = live_bytes s uid" by (simp add: live_bytes_weight)
qed

lemma delete_live_file:
  assumes "i < length (files s)" and "owner (files s ! i) = uid" and "ftype (files s ! i) = TFile"
    and "\<not> isDeleted (files s ! i)" and "quota_consistent s uid"
  shows "quota_consistent (snd (deleteEntry e s uid i now)) uid"
proof -
  let ?f = "files s ! i"
  let ?w = "live_weight uid"
  from assms(5) have used: "users s uid = Some (live_bytes s uid)" by (simp add: quota_consistent_def)
  note F = deleteEntry_file[OF assms(1-3) used, of e now]
  have wf: "?w ?f = fsize ?f" using assms(2-4) by (simp add: live_weight_def)
  have "sum_list (map ?w ((files s)[i := mark_deleted now ?f])) + ?w ?f =
        sum_list (map ?w (files s)) + ?w (mark_deleted now ?f)"
    using assms(1) by (rule sum_list_map_update)
  then have "live_bytes (snd (deleteEntry e s uid i now)) uid + int (fsize ?f) = live_bytes s uid"
    unfolding live_bytes_weight F(2) wf by simp
  moreover have "0 \<le> live_bytes (snd (deleteEntry e s uid i now)) uid"
    by (simp add: live_bytes_weight)
  ultimately show ?thesis
    unfolding quota_consistent_def F(3) by simp
qed

lemma delete_folder_unaccepted:
  assumes "i < length (files s)" and "owner (files s ! i) = uid" and "ftype (files s ! i) = TFolder"
    and "rx_compile e (regex_of_path (path (files s ! i))) = None"
  shows "deleteEntry e s uid i now =
           (ServerError, s\<lparr>files := (files s)[i := mark_deleted now (files s ! i)]\<rparr>)"
  using assms
  by (simp add: deleteEntry_def exec_def delete_handler_folder delete_folder_branch_def
      find_children_def run_SaveFile Let_def)

lemma live_bytes_mark_folder:
  assumes "i < length xs" and "ftype (xs ! i) = TFolder"
  shows "sum_list (map (live_weight uid) (xs[i := mark_deleted now (xs ! i)])) =
         sum_list (map (live_weight uid) xs)"
  using sum_list_map_update[OF assms(1), of "live_weight uid" "mark_deleted now (xs ! i)"] assms(2)
  by (simp add: live_weight_folder)

lemma delete_folder_consistent:
  assumes "i < length (files s)" and "owner (files s ! i) = uid" and "ftype (files s ! i) = TFolder"
    and "quota_consistent s uid" and "folders_empty s"
  shows "quota_consistent (snd (deleteEntry e s uid i now)) uid"
proof (cases "rx_compile e (regex_of_path (path (files s ! i)))")
  case None
  show ?thesis
    using assms(4) live_bytes_mark_folder[OF assms(1,3), of uid now]
    unfolding delete_folder_unaccepted[OF assms(1-3) None]
    by (simp add: quota_consistent_def live_bytes_weight)
next
  case (Some m)
  let ?w = "live_weight uid"
  let ?ys = "(files s)[i := mark_deleted now (files s ! i)]"
  let ?g = "\<lambda>d. if under_regex m uid d then mark_deleted now d else d"
  from assms(4) have used: "users s uid = Some (live_bytes s uid)" by (simp add: quota_consistent_def)
  note F = deleteEntry_folder[OF assms(1-3) used Some, of now]
  have fe: "ftype d = TFolder \<longrightarrow> fsize d = 0" if "d \<in> set ?ys" for d
  proof -
    from that have "d \<in> set (files s) \<or> d = mark_deleted now (files s ! i)"
      by (meson insert_iff set_update_subset_insert subsetD)
    then show ?thesis
      using assms(1,5) nth_mem[OF assms(1)] by (auto simp: folders_empty_def)
  qed
  have pt: "\<forall>d\<in>set ?ys. ?w d = (if under_regex m uid d then fsize d else 0) + ?w (?g d)"
  proof
    fix d assume d: "d \<in> set ?ys"
    show "?w d = (if under_regex m uid d then fsize d else 0) + ?w (?g d)"
    proof (cases "under_regex m uid d")
      case True
      then have "owner d = uid" "\<not> isDeleted d" by (simp_all add: under_regex_def)
      with fe[OF d] have "?w d = fsize d" by (cases "ftype d") (simp_all add: live_weight_def)
      with True show ?thesis by simp
    next
      case False
      then show ?thesis by simp
    qed
  qed
  have "sum_list (map ?w ?ys) =
        sum_list (map fsize (filter (under_regex m uid) ?ys)) + sum_list (map ?w (map ?g ?ys))"
    using pt by (rule sum_list_cascade)
  then have "live_bytes s uid =
      int (sum_list (map fsize (filter (under_regex m uid) ?ys))) +
      live_bytes (snd (deleteEntry e s uid i now)) uid"
    unfolding live_bytes_weight F(2) live_bytes_mark_folder[OF assms(1,3)] by simp
  moreover have "0 \<le> live_bytes (snd (deleteEntry e s uid i now)) uid"
    by (simp add: live_bytes_weight)
  ultimately show ?thesis
    unfolding quota_consistent_def F(3) by (simp del: sum_list_eq_0_iff)
qed

lemma createFolder_state:
  "snd (createFolder e s v req) = s \<or>
   (\<exists>f. snd (createFolder e s v req) = s\<lparr>files := files s @ [f]\<rparr> \<and> ftype f = TFolder \<and> fsize f = 0)"
  by (auto simp: createFolder_def createFolder_handler_def exec_def run_def apply_write_def
      new_File_def Let_def)

lemma uploadFile_state:
  "(files (snd (uploadFile e s v req)) = files s \<and> users (snd (uploadFile e s v req)) = users s) \<or>
   (\<exists>f used. users s v = Some used \<and>
      files (snd (uploadFile e s v req)) = files s @ [f] \<and>
      users (snd (uploadFile e s v req)) = (users s)(v \<mapsto> used + int (fsize f)) \<and>
      owner f = v \<and> ftype f = TFile \<and> \<not> isDeleted f)"
  by (auto simp: uploadFile_def upload_route_def upload_handler_def exec_def run_def apply_write_def
      new_File_def Let_def split: option.splits)

lemma delete_consistent:
  assumes "quota_consistent s uid" and "folders_empty s" and "\<not> redelete s (DeleteEntry v i now)"
  shows "quota_consistent (snd (deleteEntry e s v i now)) uid"
proof (cases "v = uid")
  case False
  with assms(1) show ?thesis
    by (simp add: quota_consistent_def delete_other_user)
next
  case True
  show ?thesis
  proof (cases "i < length (files s) \<and> owner (files s ! i) = uid")
    case False
    then have "snd (deleteEntry e s uid i now) = s"
      using delete_lookup_errors[of s i e uid now] by (cases "i < length (files s)") simp_all
    with assms(1) True show ?thesis by simp
  next
    case ok: True
    show ?thesis
    proof (cases "ftype (files s ! i)")
      case TFile
      with assms(3) ok True have "\<not> isDeleted (files s ! i)" by (simp add: redelete_def)
      with ok TFile assms(1) True show ?thesis by (simp add: delete_live_file)
    next
      case TFolder
      with ok assms(1,2) True show ?thesis by (simp add: delete_folder_consistent)
    qed
  qed
qed

lemma upload_consistent:
  assumes "quota_consistent s uid"
  shows "quota_consistent (snd (uploadFile e s v req)) uid"
proof -
  let ?s' = "snd (uploadFile e s v req)"
  from uploadFile_state[of e s v req]
  consider "files ?s' = files s" "users ?s' = users s"
    | f used where "users s v = Some used" "files ?s' = files s @ [f]"
        "users ?s' = (users s)(v \<mapsto> used + int (fsize f))"
        "owner f = v" "ftype f = TFile" "\<not> isDeleted f"
    by blast
  then show ?thesis
  proof cases
    case 1
    with assms show ?thesis by (simp add: quota_consistent_def live_bytes_def)
  next
    case (2 f used)
    show ?thesis
    proof (cases "v = uid")
      case True
      with 2 assms show ?thesis
        by (simp add: quota_consistent_def live_bytes_weight live_weight_def)
    next
      case False
      with 2 assms show ?thesis
        by (simp add: quota_consistent_def live_bytes_weight live_weight_def)
    qed
  qed
qed

lemma upload_keeps_folders_empty:
  "folders_empty s \<Longrightarrow> folders_empty (snd (uploadFile e s v req))"
  using uploadFile_state[of e s v req] by (auto simp: folders_empty_def)

lemma createFolder_consistent:
  "quota_consistent s uid \<Longrightarrow> quota_consistent (snd (createFolder e s v req)) uid"
  using createFolder_state[of e s v req]
  by (auto simp: quota_consistent_def live_bytes_weight live_weight_def)

lemma createFolder_keeps_folders_empty:
  "folders_empty s \<Longrightarrow> folders_empty (snd (createFolder e s v req))"
  using createFolder_state[of e s v req] by (auto simp: folders_empty_def)

lemma handle_consistent:
  assumes "quota_consistent s uid" and "folders_empty s" and "\<not> redelete s r"
  shows "quota_consistent (snd (handle e r s)) uid \<and> folders_empty (snd (handle e r s))"
proof (cases r)
  case (CreateFolder v req)
  with assms show ?thesis
    by (simp add: handle_def createFolder_consistent createFolder_keeps_folders_empty)
next
  case (UploadFile v req)
  with assms show ?thesis
    by (simp add: handle_def upload_consistent upload_keeps_folders_empty)
next
  case (DeleteEntry v i now)
  with assms show ?thesis
    by (simp add: handle_def delete_consistent delete_keeps_folders_empty)
qed

text \<open>
  The quota invariant under the one condition the code needs: over any sequence of
  requests none of which deletes an already deleted file of its requester, a counter that
  equals the live bytes of its user keeps doing so.
\<close>

lemma quota_consistent_without_redelete:
  assumes "quota_consistent s uid" and "folders_empty s" and "no_redelete rs s"
  shows "quota_consistent (handle_all rs s) uid"
  using assms
proof (induction rs arbitrary: s)
  case Nil
  then show ?case by simp
next
  case (Cons er rs)
  obtain e r where er: "er = (e, r)" by (cases er)
  from Cons.prems(3) have nr: "\<not> redelete s r" and rest: "no_redelete rs (snd (handle e r s))"
    by (simp_all add: er)
  from handle_consistent[OF Cons.prems(1,2) nr, of e]
  show ?case unfolding er by (simp add: Cons.IH rest)
qed

lemma empty_store_consistent:
  "quota_consistent one_user 1" "folders_empty one_user"
  by (simp_all add: quota_consistent_def live_bytes_def folders_empty_def one_user_def)

subsection \<open>The quota invariant after a repeated delete\<close>

text \<open>
  C1 fails on the code: after two uploads of a hundred bytes and two deletes of the first
  file, the counter is 0 while the one file left holds a hundred bytes.
\<close>

theorem quota_drifts_after_second_delete:
  "users (handle_all
       [(plain_env, UploadFile 1 (upload_of ''a'' 100 PNull)),
        (plain_env, UploadFile 1 (upload_of ''b'' 100 PNull)),
        (plain_env, DeleteEntry 1 0 7),
        (plain_env, DeleteEntry 1 0 8)] one_user) 1 = Some 0 \<and>
   live_bytes (handle_all
       [(plain_env, UploadFile 1 (upload_of ''a'' 100 PNull)),
        (plain_env, UploadFile 1 (upload_of ''b'' 100 PNull)),
        (plain_env, DeleteEntry 1 0 7),
        (plain_env, DeleteEntry 1 0 8)] one_user) 1 = 100 \<and>
   \<not> quota_consistent (handle_all
       [(plain_env, UploadFile 1 (upload_of ''a'' 100 PNull)),
        (plain_env, UploadFile 1 (upload_of ''b'' 100 PNull)),
        (plain_env, DeleteEntry 1 0 7),
        (plain_env, DeleteEntry 1 0 8)] one_user) 1"
  by (simp add: handler_defs example_defs live_bytes_def quota_consistent_def)

end
